theory Spec2Isabelle
  imports Complex_Main
begin

section \<open>LP-based inverse reinforcement learning on a 1-D state space\<close>

text \<open>
  A shallow embedding of the sampling-based LP-IRL script: the simulator
  (\<open>truncate_state\<close>, \<open>step\<close>, \<open>monte_carlo_sim\<close>), the value estimator
  (\<open>calc_value_function_estimate\<close>), the reward model and policy family, the
  weight-recovery solver (\<open>solve_lp_for_alphas\<close>) and the driver
  (\<open>lp_irl_sample_trajectories\<close>).

  Conventions of the embedding.
  \<^item> Python floats and numpy float arrays are modelled by \<open>real\<close> and \<open>real list\<close>:
    the arithmetic is exact, there is no rounding, no infinity and no NaN.
  \<^item> Every exception of the source is a value \<open>Inl e\<close> of the result type.
  \<^item> The process-wide random generator is explicit state, threaded through every
    function that draws from it: the stream of the outcomes its future \<open>uniform\<close> draws
    will have, each rescaled to the unit interval. It is not the generator's raw output.
  \<^item> \<open>scipy.optimize.linprog\<close> and \<open>np.random.choice\<close> are not code of the script; the
    solver and the driver take them as parameters, and a theorem that depends on what
    \<open>linprog\<close> computes names the part of its documented contract it relies on.
  \<^item> \<open>print\<close> appends to an explicit output log.
\<close>

subsection \<open>Errors, vectors, numpy primitives\<close>

datatype error = IndexError | ValueError string

type_synonym vec = "real list"

text \<open>Decimal rendering of the numbers and 1-D shapes numpy puts in its messages.\<close>

fun show_nat :: "nat \<Rightarrow> string" where
  "show_nat n =
     (if n < 10 then [''0123456789'' ! n]
      else show_nat (n div 10) @ [''0123456789'' ! (n mod 10)])"

definition show_int :: "int \<Rightarrow> string" where
  "show_int k = (if k < 0 then ''-'' @ show_nat (nat (- k)) else show_nat (nat k))"

definition show_shape :: "vec \<Rightarrow> string" where
  "show_shape a = ''('' @ show_nat (length a) @ '',)''"

text \<open>Element-wise binary operations on 1-D arrays broadcast a length-1 operand and
  raise on any other length mismatch.\<close>

definition np_broadcast2 :: "(real \<Rightarrow> real \<Rightarrow> real) \<Rightarrow> vec \<Rightarrow> vec \<Rightarrow> error + vec" where
  "np_broadcast2 f a b =
     (if length a = length b then Inr (map2 f a b)
      else if length b = 1 then Inr (map (\<lambda>u. f u (b ! 0)) a)
      else if length a = 1 then Inr (map (\<lambda>v. f (a ! 0) v) b)
      else Inl (ValueError (''operands could not be broadcast together with shapes ''
                            @ show_shape a @ '' '' @ show_shape b @ '' '')))"

definition np_sub :: "vec \<Rightarrow> vec \<Rightarrow> error + vec" where
  "np_sub a b = np_broadcast2 (\<lambda>u v. u - v) a b"

definition np_mul :: "vec \<Rightarrow> vec \<Rightarrow> error + vec" where
  "np_mul a b = np_broadcast2 (\<lambda>u v. u * v) a b"

text \<open>In-place addition \<open>a += b\<close>: the result must have the shape of \<open>a\<close>. When \<open>a\<close> has
  length 1 the operands broadcast to the shape of \<open>b\<close>, which the output cannot hold;
  otherwise the operands do not broadcast at all.\<close>

definition np_iadd :: "vec \<Rightarrow> vec \<Rightarrow> error + vec" where
  "np_iadd a b =
     (if length b = length a then Inr (map2 (\<lambda>u v. u + v) a b)
      else if length b = 1 then Inr (map (\<lambda>u. u + b ! 0) a)
      else if length a = 1 then
        Inl (ValueError (''non-broadcastable output operand with shape '' @ show_shape a
                         @ '' doesn't match the broadcast shape '' @ show_shape b))
      else Inl (ValueError (''operands could not be broadcast together with shapes ''
                            @ show_shape a @ '' '' @ show_shape b @ '' '' @ show_shape a @ '' '')))"

definition np_zeros :: "nat \<Rightarrow> vec" where
  "np_zeros n = replicate n 0"

definition np_ones :: "nat \<Rightarrow> vec" where
  "np_ones n = replicate n 1"

definition np_eye :: "nat \<Rightarrow> vec list" where
  "np_eye n = map (\<lambda>i. map (\<lambda>j. if i = j then 1 else 0) [0..<n]) [0..<n]"

definition np_max :: "vec \<Rightarrow> error + real" where
  "np_max xs =
     (case xs of
        [] \<Rightarrow> Inl (ValueError ''zero-size array to reduction operation maximum which has no identity'')
      | y # ys \<Rightarrow> Inr (fold max ys y))"

text \<open>\<open>np.linspace(start, stop, num)\<close> with the default \<open>endpoint=True\<close>: \<open>num\<close>
  samples \<open>start + i * step\<close>, the last one overwritten by \<open>stop\<close> when there are at
  least two; a negative \<open>num\<close> raises.\<close>

definition np_linspace :: "real \<Rightarrow> real \<Rightarrow> int \<Rightarrow> error + vec" where
  "np_linspace start stop num =
     (if num < 0 then
        Inl (ValueError (''Number of samples, '' @ show_int num @ '', must be non-negative.''))
      else
        let n = nat num;
            dv = num - 1;
            delta = stop - start;
            y = (if dv > 0 then map (\<lambda>i. real i * (delta / real_of_int dv) + start) [0..<n]
                 else map (\<lambda>i. real i * delta + start) [0..<n])
        in Inr (if n > 1 then y[n - 1 := stop] else y))"

text \<open>\<open>scipy.stats.norm.pdf(x, loc, scale)\<close>: the Gaussian density.\<close>

definition norm_pdf :: "real \<Rightarrow> real \<Rightarrow> real \<Rightarrow> real" where
  "norm_pdf x loc scale = exp (- (((x - loc) / scale)\<^sup>2) / 2) / sqrt (2 * pi) / scale"

subsection \<open>The random source\<close>

text \<open>The generator is the stream of the outcomes of its future \<open>uniform\<close> draws, each
  rescaled to a unit draw (in \<open>[0, 1)\<close> for a real generator); a draw takes the head and
  leaves the tail. Every run of the script is the run of the model on some stream.\<close>

type_synonym rng = "nat \<Rightarrow> real"

definition rng_drop :: "nat \<Rightarrow> rng \<Rightarrow> rng" where
  "rng_drop m g = (\<lambda>k. g (k + m))"

definition const_rng :: "real \<Rightarrow> rng" where
  "const_rng u = (\<lambda>k. u)"

definition uniform :: "real \<Rightarrow> real \<Rightarrow> rng \<Rightarrow> real \<times> rng" where
  "uniform low high g = (low + (high - low) * g 0, rng_drop 1 g)"

text \<open>\<open>np.random.choice(xs)\<close>, a parameter of the model: from a list and the generator it
  gives the element drawn and the generator it leaves. How numpy selects the element
  and how far it advances the generator is not part of the model.\<close>

type_synonym chooser = "real list \<Rightarrow> rng \<Rightarrow> real \<times> rng"

subsection \<open>Dynamics simulator\<close>

text \<open>A policy is a Python callable; the reward-greedy policy of the driver can raise,
  so a policy returns an action or an error. \<open>pure_policy\<close> lifts a function that
  always returns.\<close>

type_synonym policy = "real \<Rightarrow> error + real"

definition pure_policy :: "(real \<Rightarrow> real) \<Rightarrow> policy" where
  "pure_policy p = (\<lambda>s. Inr (p s))"

definition pi_star :: "real \<Rightarrow> real" where
  "pi_star s = (if s < 0 then 1 else - 1)"

definition noise :: "rng \<Rightarrow> real \<times> rng" where
  "noise g = uniform (- 0.5) 0.5 g"

definition truncate_state :: "real \<Rightarrow> real" where
  "truncate_state s = (if s > 1 then 1 else if s < - 1 then - 1 else s)"

definition step :: "real \<Rightarrow> policy \<Rightarrow> rng \<Rightarrow> error + real \<times> rng" where
  "step s pol g =
     (case pol s of
        Inl e \<Rightarrow> Inl e
      | Inr a \<Rightarrow> (case noise g of (nz, g') \<Rightarrow> Inr (truncate_state (a * s + nz), g')))"

subsection \<open>Trajectory generator\<close>

text \<open>The inner loop \<open>for __ in range(trajectory_length - 1)\<close>: each pass steps from the
  last state \<open>traj[-1]\<close> of the trajectory, which is never empty, and appends the result.\<close>

fun extend_traj :: "policy \<Rightarrow> nat \<Rightarrow> real list \<Rightarrow> rng \<Rightarrow> error + real list \<times> rng" where
  "extend_traj pol 0 traj g = Inr (traj, g)"
| "extend_traj pol (Suc k) traj g =
     (case step (last traj) pol g of
        Inl e \<Rightarrow> Inl e
      | Inr (s_next, g') \<Rightarrow> extend_traj pol k (traj @ [s_next]) g')"

text \<open>The outer loop \<open>for _ in range(n_trajectories)\<close>.\<close>

fun sim_loop :: "policy \<Rightarrow> nat \<Rightarrow> int \<Rightarrow> real list list \<Rightarrow> rng \<Rightarrow> error + real list list \<times> rng" where
  "sim_loop pol 0 trajectory_length trajectories g = Inr (trajectories, g)"
| "sim_loop pol (Suc n) trajectory_length trajectories g =
     (case uniform (- 1) 1 g of
        (s0, g1) \<Rightarrow>
          (case extend_traj pol (nat (trajectory_length - 1)) [s0] g1 of
             Inl e \<Rightarrow> Inl e
           | Inr (traj, g2) \<Rightarrow> sim_loop pol n trajectory_length (trajectories @ [traj]) g2))"

definition monte_carlo_sim :: "policy \<Rightarrow> int \<Rightarrow> int \<Rightarrow> rng \<Rightarrow> error + real list list \<times> rng" where
  "monte_carlo_sim pol n_trajectories trajectory_length g =
     sim_loop pol (nat n_trajectories) trajectory_length [] g"


subsection \<open>Basis set and value estimator\<close>

text \<open>The loop \<open>for traj in trajectories\<close> of the estimator, for the basis function with
  mean \<open>m\<close>: the discounted sum of the density along each trajectory. The product
  \<open>phi_values * discounts\<close> raises when the trajectory's length does not fit the
  discount vector.\<close>

fun traj_returns_loop :: "real \<Rightarrow> real \<Rightarrow> vec \<Rightarrow> real list list \<Rightarrow> error + real list" where
  "traj_returns_loop m sd discounts [] = Inr []"
| "traj_returns_loop m sd discounts (traj # rest) =
     (case np_mul (map (\<lambda>s. norm_pdf s m sd) traj) discounts of
        Inl e \<Rightarrow> Inl e
      | Inr phi_disc \<Rightarrow>
          (case traj_returns_loop m sd discounts rest of
             Inl e \<Rightarrow> Inl e
           | Inr traj_returns \<Rightarrow> Inr (sum_list phi_disc # traj_returns)))"

definition np_mean :: "real list \<Rightarrow> real" where
  "np_mean xs = sum_list xs / real (length xs)"

text \<open>The loop \<open>for i, m in enumerate(means)\<close>, writing \<open>values[i]\<close>.\<close>

fun values_loop :: "nat \<Rightarrow> vec \<Rightarrow> real \<Rightarrow> vec \<Rightarrow> real list list \<Rightarrow> vec \<Rightarrow> error + vec" where
  "values_loop i [] sd discounts trajectories vals = Inr vals"
| "values_loop i (m # ms) sd discounts trajectories vals =
     (case traj_returns_loop m sd discounts trajectories of
        Inl e \<Rightarrow> Inl e
      | Inr traj_returns \<Rightarrow>
          values_loop (Suc i) ms sd discounts trajectories
            (vals[i := (if length traj_returns > 0 then np_mean traj_returns else 0)]))"

definition calc_value_function_estimate :: "real list list \<Rightarrow> real \<Rightarrow> int \<Rightarrow> error + vec" where
  "calc_value_function_estimate trajectories discount n_basis =
     (case np_linspace (- 1) 1 n_basis of
        Inl e \<Rightarrow> Inl e
      | Inr means \<Rightarrow>
          let sd = 2 / 22;
              T = (if length trajectories > 0 then length (trajectories ! 0) else 0);
              discounts = map (\<lambda>t. discount ^ t) [0..<T];
              vals = np_zeros (nat n_basis)
          in values_loop 0 means sd discounts trajectories vals)"

subsection \<open>Reward model and policy family\<close>

definition reward_function :: "real \<Rightarrow> vec \<Rightarrow> int \<Rightarrow> error + real" where
  "reward_function s alpha n_basis =
     (case np_linspace (- 1) 1 n_basis of
        Inl e \<Rightarrow> Inl e
      | Inr means \<Rightarrow>
          let sd = 2 / 22;
              phi_values = map (\<lambda>m. norm_pdf s m sd) means
          in (case np_mul alpha phi_values of
                Inl e \<Rightarrow> Inl e
              | Inr weighted \<Rightarrow> Inr (sum_list weighted)))"

definition construct_random_policy :: "chooser \<Rightarrow> rng \<Rightarrow> error + policy \<times> rng" where
  "construct_random_policy choice g =
     (case choice [- 1, 1] g of
        (shape, g1) \<Rightarrow>
          (case np_linspace (- 1) 1 21 of
             Inl e \<Rightarrow> Inl e
           | Inr grid \<Rightarrow>
               (case choice grid g1 of
                  (inflection, g2) \<Rightarrow>
                    Inr (pure_policy (\<lambda>s. if s < inflection then - shape else shape), g2))))"

text \<open>The reward-greedy policy \<open>pi_updated\<close> the driver builds from a snapshot of alpha.\<close>

definition pi_updated :: "vec \<Rightarrow> int \<Rightarrow> policy" where
  "pi_updated alpha n_basis =
     (\<lambda>s. case reward_function s alpha n_basis of
             Inl e \<Rightarrow> Inl e
           | Inr r \<Rightarrow> Inr (if r > 0.5 then 1 else - 1))"

subsection \<open>Weight-recovery solver\<close>

text \<open>What \<open>linprog\<close> returns: the fields of the result the solver reads.\<close>

record lp_result =
  lp_success :: bool
  lp_x :: vec

text \<open>The LP backend \<open>linprog(c, A_ub, b_ub, bounds)\<close>, a parameter of the model: it
  returns a result or raises.\<close>

type_synonym linprog = "vec \<Rightarrow> vec list \<Rightarrow> vec \<Rightarrow> real \<times> real \<Rightarrow> error + lp_result"

text \<open>The loop \<open>for j in range(len(list_of_other_values) - 1)\<close> accumulating
  \<open>total_diff += V_pi_star - list_of_other_values[j]\<close>.\<close>

fun diff_loop :: "vec \<Rightarrow> vec list \<Rightarrow> nat list \<Rightarrow> vec \<Rightarrow> error + vec" where
  "diff_loop V_pi_star vs [] total_diff = Inr total_diff"
| "diff_loop V_pi_star vs (j # js) total_diff =
     (case np_sub V_pi_star (vs ! j) of
        Inl e \<Rightarrow> Inl e
      | Inr d \<Rightarrow>
          (case np_iadd total_diff d of
             Inl e \<Rightarrow> Inl e
           | Inr total_diff' \<Rightarrow> diff_loop V_pi_star vs js total_diff'))"

definition solve_lp_for_alphas :: "linprog \<Rightarrow> vec \<Rightarrow> vec list \<Rightarrow> error + vec" where
  "solve_lp_for_alphas backend value_pi_star list_of_other_values =
     (if list_of_other_values = [] then Inl IndexError
      else
        let V_pi_star = last list_of_other_values
        in (case diff_loop V_pi_star list_of_other_values
                   [0..<length list_of_other_values - 1] (np_zeros (length V_pi_star)) of
              Inl e \<Rightarrow> Inl e
            | Inr total_diff \<Rightarrow>
                let c = map uminus total_diff;
                    A_ub = np_eye (length c);
                    b_ub = np_ones (length c)
                in (case backend c A_ub b_ub (0, 1) of
                      Inl e \<Rightarrow> Inl e
                    | Inr res \<Rightarrow>
                        if lp_success res then Inr (lp_x res)
                        else Inl (ValueError ''LP did not find a feasible solution.''))))"

subsection \<open>IRL driver\<close>

datatype event = Converged_at nat | Iteration nat | Print_alpha vec

record irl_state =
  st_alpha :: vec
  st_value_functions :: "vec list"
  st_pi_current :: policy
  st_rng :: rng
  st_out :: "event list"

text \<open>What one pass of the loop body does: raise, return from the driver, or fall
  through to the next pass with an updated state.\<close>

datatype ('s, 'r) control = Raise error | Return 'r | Continue 's

text \<open>The driver's value \<open>(alpha, value_functions)\<close>, with the generator and the printed
  output it leaves behind.\<close>

type_synonym irl_result = "(vec \<times> vec list) \<times> rng \<times> event list"

text \<open>The test \<open>i >= 4 and np.max(np.abs(alpha_next - alpha)) < 0.1\<close>; \<open>and\<close> does not
  evaluate its right operand when the left one is false.\<close>

definition convergence_test :: "nat \<Rightarrow> vec \<Rightarrow> vec \<Rightarrow> error + bool" where
  "convergence_test i alpha_next alpha =
     (if i \<ge> 4 then
        (case np_sub alpha_next alpha of
           Inl e \<Rightarrow> Inl e
         | Inr d \<Rightarrow>
             (case np_max (map abs d) of
                Inl e \<Rightarrow> Inl e
              | Inr m \<Rightarrow> Inr (m < 0.1)))
      else Inr False)"

definition irl_iter :: "linprog \<Rightarrow> real \<Rightarrow> int \<Rightarrow> bool \<Rightarrow> nat \<Rightarrow> irl_state \<Rightarrow> (irl_state, irl_result) control" where
  "irl_iter backend discount n_basis print_progress i st =
     (case monte_carlo_sim (st_pi_current st) 20 20 (st_rng st) of
        Inl e \<Rightarrow> Raise e
      | Inr (traj, g') \<Rightarrow>
          (case calc_value_function_estimate traj discount n_basis of
             Inl e \<Rightarrow> Raise e
           | Inr value_pi_current \<Rightarrow>
               let value_functions = value_pi_current # st_value_functions st
               in (case solve_lp_for_alphas backend (last value_functions) value_functions of
                     Inl e \<Rightarrow> Raise e
                   | Inr alpha_next \<Rightarrow>
                       (case convergence_test i alpha_next (st_alpha st) of
                          Inl e \<Rightarrow> Raise e
                        | Inr True \<Rightarrow>
                            Return ((alpha_next, value_functions), g',
                                    st_out st @ (if print_progress then [Converged_at (i + 1)] else []))
                        | Inr False \<Rightarrow>
                            Continue \<lparr> st_alpha = alpha_next,
                                       st_value_functions = value_functions,
                                       st_pi_current = pi_updated alpha_next n_basis,
                                       st_rng = g',
                                       st_out = st_out st @
                                         (if print_progress then [Iteration (i + 1), Print_alpha alpha_next]
                                          else []) \<rparr>))))"

text \<open>The loop \<open>for i in range(max_iter)\<close>, by recursion on the number of passes left;
  when none is left the driver returns the current alpha and history.\<close>

fun irl_loop :: "linprog \<Rightarrow> real \<Rightarrow> int \<Rightarrow> bool \<Rightarrow> nat \<Rightarrow> nat \<Rightarrow> irl_state \<Rightarrow> error + irl_result" where
  "irl_loop backend discount n_basis print_progress 0 i st =
     Inr ((st_alpha st, st_value_functions st), st_rng st, st_out st)"
| "irl_loop backend discount n_basis print_progress (Suc left) i st =
     (case irl_iter backend discount n_basis print_progress i st of
        Raise e \<Rightarrow> Inl e
      | Return r \<Rightarrow> Inr r
      | Continue st' \<Rightarrow> irl_loop backend discount n_basis print_progress left (Suc i) st')"

text \<open>Initialisation: the expert's estimate, the zero alpha, a random policy.
  \<open>np.zeros(n_basis)\<close> is reached only when \<open>n_basis\<close> is not negative, since the
  estimator has raised otherwise.\<close>

definition irl_init :: "chooser \<Rightarrow> real list list \<Rightarrow> real \<Rightarrow> int \<Rightarrow> rng \<Rightarrow> error + irl_state" where
  "irl_init choice data discount n_basis g =
     (case calc_value_function_estimate data discount n_basis of
        Inl e \<Rightarrow> Inl e
      | Inr value_pi_star \<Rightarrow>
          (case construct_random_policy choice g of
             Inl e \<Rightarrow> Inl e
           | Inr (pi_current, g1) \<Rightarrow>
               Inr \<lparr> st_alpha = np_zeros (nat n_basis),
                     st_value_functions = [value_pi_star],
                     st_pi_current = pi_current,
                     st_rng = g1,
                     st_out = [] \<rparr>))"

definition lp_irl_sample_trajectories ::
    "linprog \<Rightarrow> chooser \<Rightarrow> real list list \<Rightarrow> int \<Rightarrow> bool \<Rightarrow> real \<Rightarrow> int \<Rightarrow> rng
       \<Rightarrow> error + irl_result" where
  "lp_irl_sample_trajectories backend choice data max_iter print_progress discount n_basis g =
     (case irl_init choice data discount n_basis g of
        Inl e \<Rightarrow> Inl e
      | Inr st0 \<Rightarrow> irl_loop backend discount n_basis print_progress (nat max_iter) 0 st0)"

text \<open>The state at the top of the loop after \<open>k\<close> passes that fell through; \<open>None\<close> when
  an earlier pass raised or returned.\<close>

fun irl_run :: "linprog \<Rightarrow> real \<Rightarrow> int \<Rightarrow> bool \<Rightarrow> nat \<Rightarrow> irl_state \<Rightarrow> irl_state option" where
  "irl_run backend discount n_basis print_progress 0 st0 = Some st0"
| "irl_run backend discount n_basis print_progress (Suc k) st0 =
     (case irl_run backend discount n_basis print_progress k st0 of
        None \<Rightarrow> None
      | Some st \<Rightarrow>
          (case irl_iter backend discount n_basis print_progress k st of
             Continue st' \<Rightarrow> Some st'
           | _ \<Rightarrow> None))"

subsection \<open>Specification vocabulary\<close>

text \<open>The unit hypercube, the LP objective, and the objective vector of the
  specification: component \<open>i\<close> of \<open>total_diff\<close> is the sum over every estimate but the
  last of the expert's component minus the estimate's.\<close>

definition in_unit_box :: "vec \<Rightarrow> bool" where
  "in_unit_box y \<longleftrightarrow> list_all (\<lambda>a. 0 \<le> a \<and> a \<le> 1) y"

definition dot :: "vec \<Rightarrow> vec \<Rightarrow> real" where
  "dot a b = sum_list (map2 (\<lambda>u v. u * v) a b)"

definition spec_total_diff :: "vec list \<Rightarrow> vec" where
  "spec_total_diff hist =
     map (\<lambda>i. sum_list (map (\<lambda>v. last hist ! i - v ! i) (butlast hist))) [0..<length (last hist)]"

text \<open>The parts of the documented contract of \<open>linprog\<close> the theorems rely on. On the
  box problem the solver poses (objective \<open>c\<close>, \<open>A_ub\<close> the identity, \<open>b_ub\<close> all ones,
  bounds \<open>(0, 1)\<close>), which is feasible and bounded for every \<open>c\<close>, the backend reports
  success with a minimiser of \<open>c \<bullet> x\<close> over the box.\<close>

definition linprog_solves_box :: "linprog \<Rightarrow> bool" where
  "linprog_solves_box backend \<longleftrightarrow>
     (\<forall>c. c \<noteq> [] \<longrightarrow>
        (\<exists>res. backend c (np_eye (length c)) (np_ones (length c)) (0, 1) = Inr res
           \<and> lp_success res \<and> length (lp_x res) = length c \<and> in_unit_box (lp_x res)
           \<and> (\<forall>y. length y = length c \<and> in_unit_box y \<longrightarrow> dot c (lp_x res) \<le> dot c y)))"

text \<open>A result reported as a success satisfies the variable bounds it was given.\<close>

definition linprog_respects_bounds :: "linprog \<Rightarrow> bool" where
  "linprog_respects_bounds backend \<longleftrightarrow>
     (\<forall>c A_ub b_ub lo hi res.
        backend c A_ub b_ub (lo, hi) = Inr res \<and> lp_success res
        \<longrightarrow> list_all (\<lambda>a. lo \<le> a \<and> a \<le> hi) (lp_x res))"

text \<open>Two backends to run the model on: one that solves the box problem by picking,
  per component, the bound that minimises the objective (and declines anything else),
  and one that always reports failure while still carrying a vector.\<close>

definition box_vertex_linprog :: linprog where
  "box_vertex_linprog c A_ub b_ub bounds =
     (if c = [] then Inl (ValueError ''c must be a non-empty 1-D array'')
      else if A_ub = np_eye (length c) \<and> b_ub = np_ones (length c) \<and> bounds = (0, 1)
        then Inr \<lparr> lp_success = True, lp_x = map (\<lambda>ci. if ci < 0 then 1 else 0) c \<rparr>
      else Inr \<lparr> lp_success = False, lp_x = [] \<rparr>)"

definition failing_linprog :: linprog where
  "failing_linprog c A_ub b_ub bounds = Inr \<lparr> lp_success = False, lp_x = np_zeros (length c) \<rparr>"

text \<open>A choice function to run the model on: one unit draw \<open>u\<close> selects the element of
  index \<open>\<lfloor>u * n\<rfloor>\<close>.\<close>

definition unit_choice :: chooser where
  "unit_choice xs g =
     (xs ! min (length xs - 1) (nat \<lfloor>g 0 * real (length xs)\<rfloor>), rng_drop 1 g)"

text \<open>A trajectory whose every state after the first is the simulator's step from the
  state before it, the generator \<open>G\<close> being the one left after the initial draw.\<close>

definition chain :: "policy \<Rightarrow> rng \<Rightarrow> real list \<Rightarrow> bool" where
  "chain pol G traj \<longleftrightarrow>
     (\<forall>j. Suc j < length traj \<longrightarrow>
        step (traj ! j) pol (rng_drop j G) = Inr (traj ! Suc j, rng_drop (Suc j) G))"

text \<open>The basis set of the specification: \<open>n_basis\<close> evenly spaced means over
  \<open>[-1, 1]\<close>, both endpoints included (a single mean sits at \<open>-1\<close>), and the Gaussian
  probability density with mean \<open>mu\<close> and standard deviation \<open>sigma\<close>.\<close>

definition spec_basis_mean :: "int \<Rightarrow> nat \<Rightarrow> real" where
  "spec_basis_mean n_basis i =
     (if n_basis = 1 then - 1 else - 1 + 2 * real i / real_of_int (n_basis - 1))"

definition spec_gaussian_pdf :: "real \<Rightarrow> real \<Rightarrow> real \<Rightarrow> real" where
  "spec_gaussian_pdf mu sigma s = exp (- ((s - mu)\<^sup>2) / (2 * sigma\<^sup>2)) / (sigma * sqrt (2 * pi))"

section \<open>Simulator and trajectory generator\<close>


lemma rng_drop_drop: "rng_drop a (rng_drop b g) = rng_drop (a + b) g"
  by (simp add: rng_drop_def fun_eq_iff add.assoc)

lemma rng_drop_drop_eq: "a + b = c \<Longrightarrow> rng_drop a (rng_drop b g) = rng_drop c g"
  by (simp add: rng_drop_drop)

lemma rng_drop_0: "rng_drop 0 g = g"
  by (simp add: rng_drop_def)

lemma noise_any: "fst (noise (const_rng (nz + 1 / 2))) = nz"
  by (simp add: noise_def uniform_def const_rng_def)

lemma step_pure:
  "step s (pure_policy p) g = Inr (truncate_state (p s * s + fst (noise g)), rng_drop 1 g)"
  by (simp add: step_def pure_policy_def noise_def uniform_def)

lemma extend_traj_pure:
  assumes "length traj = Suc m" and "chain (pure_policy p) G traj"
  shows "\<exists>traj'. extend_traj (pure_policy p) k traj (rng_drop m G)
            = Inr (traj', rng_drop (m + k) G)
          \<and> length traj' = Suc (m + k) \<and> traj' ! 0 = traj ! 0
          \<and> chain (pure_policy p) G traj'"
  using assms
proof (induction k arbitrary: traj m)
  case 0
  then show ?case by simp
next
  case (Suc k)
  let ?g = "rng_drop m G"
  let ?s = "truncate_state (p (last traj) * last traj + fst (noise ?g))"
  have ne: "traj \<noteq> []" using Suc.prems(1) by auto
  have st: "step (last traj) (pure_policy p) ?g = Inr (?s, rng_drop 1 ?g)"
    by (rule step_pure)
  have d1: "rng_drop 1 ?g = rng_drop (Suc m) G"
    by (simp add: rng_drop_drop)
  have ch: "chain (pure_policy p) G (traj @ [?s])"
    unfolding chain_def
  proof (intro allI impI)
    fix j assume j: "Suc j < length (traj @ [?s])"
    show "step ((traj @ [?s]) ! j) (pure_policy p) (rng_drop j G)
          = Inr ((traj @ [?s]) ! Suc j, rng_drop (Suc j) G)"
    proof (cases "j < m")
      case True
      with Suc.prems show ?thesis by (simp add: chain_def nth_append)
    next
      case False
      with j Suc.prems(1) have jj: "j = m" by simp
      have a: "(traj @ [?s]) ! m = last traj"
        using Suc.prems(1) ne by (simp add: nth_append last_conv_nth)
      have b: "(traj @ [?s]) ! Suc m = ?s" using Suc.prems(1) by (simp add: nth_append)
      show ?thesis unfolding jj a b d1 [symmetric] by (rule st)
    qed
  qed
  have len: "length (traj @ [?s]) = Suc (Suc m)" using Suc.prems(1) by simp
  from Suc.IH [OF len ch]
  obtain traj' where t:
    "extend_traj (pure_policy p) k (traj @ [?s]) (rng_drop (Suc m) G)
       = Inr (traj', rng_drop (Suc m + k) G)"
    "length traj' = Suc (Suc m + k)" "traj' ! 0 = (traj @ [?s]) ! 0"
    "chain (pure_policy p) G traj'" by auto
  have z: "(traj @ [?s]) ! 0 = traj ! 0" using ne by (simp add: nth_append)
  have "extend_traj (pure_policy p) (Suc k) traj ?g = Inr (traj', rng_drop (m + Suc k) G)"
    using st t(1) by (simp add: rng_drop_drop)
  then show ?case using t(2,3,4) z by auto
qed


lemma chain_single: "chain pol G [s0]"
  by (simp add: chain_def)

lemma sim_loop_pure:
  "\<exists>new. sim_loop (pure_policy p) n L trajs g
           = Inr (trajs @ new, rng_drop (n * Suc (nat (L - 1))) g)
     \<and> length new = n
     \<and> (\<forall>r<n. length (new ! r) = Suc (nat (L - 1))
            \<and> new ! r ! 0 = fst (uniform (- 1) 1 (rng_drop (r * Suc (nat (L - 1))) g))
            \<and> chain (pure_policy p) (rng_drop (Suc (r * Suc (nat (L - 1)))) g) (new ! r))"
proof (induction n arbitrary: trajs g)
  case 0
  then show ?case by (simp add: rng_drop_0)
next
  case (Suc n)
  let ?K = "Suc (nat (L - 1))"
  let ?s0 = "fst (uniform (- 1) 1 g)"
  have u: "uniform (- 1) 1 g = (?s0, rng_drop 1 g)" by (simp add: uniform_def)
  from extend_traj_pure [of "[?s0]" 0 p "rng_drop 1 g" "nat (L - 1)"]
  obtain traj where t:
    "extend_traj (pure_policy p) (nat (L - 1)) [?s0] (rng_drop 0 (rng_drop 1 g))
       = Inr (traj, rng_drop (0 + nat (L - 1)) (rng_drop 1 g))"
    "length traj = ?K" "traj ! 0 = [?s0] ! 0" "chain (pure_policy p) (rng_drop 1 g) traj"
    by (auto simp: chain_single)
  have t1: "extend_traj (pure_policy p) (nat (L - 1)) [?s0] (rng_drop 1 g)
       = Inr (traj, rng_drop ?K g)"
    using t(1) by (simp add: rng_drop_drop rng_drop_0)
  from Suc.IH [of "trajs @ [traj]" "rng_drop ?K g"]
  obtain new where n:
    "sim_loop (pure_policy p) n L (trajs @ [traj]) (rng_drop ?K g)
       = Inr ((trajs @ [traj]) @ new, rng_drop (n * ?K) (rng_drop ?K g))"
    "length new = n"
    "\<forall>r<n. length (new ! r) = ?K
        \<and> new ! r ! 0 = fst (uniform (- 1) 1 (rng_drop (r * ?K) (rng_drop ?K g)))
        \<and> chain (pure_policy p) (rng_drop (Suc (r * ?K)) (rng_drop ?K g)) (new ! r)"
    by blast
  have idx: "rng_drop (n * ?K) (rng_drop ?K g) = rng_drop (Suc n * ?K) g"
    by (rule rng_drop_drop_eq) simp
  have run: "sim_loop (pure_policy p) (Suc n) L trajs g
       = Inr (trajs @ (traj # new), rng_drop (Suc n * ?K) g)"
    using t1 n(1) unfolding idx by (simp add: uniform_def)
  have each: "\<forall>r<Suc n. length ((traj # new) ! r) = ?K
        \<and> (traj # new) ! r ! 0 = fst (uniform (- 1) 1 (rng_drop (r * ?K) g))
        \<and> chain (pure_policy p) (rng_drop (Suc (r * ?K)) g) ((traj # new) ! r)"
  proof (intro allI impI)
    fix r assume r: "r < Suc n"
    show "length ((traj # new) ! r) = ?K
        \<and> (traj # new) ! r ! 0 = fst (uniform (- 1) 1 (rng_drop (r * ?K) g))
        \<and> chain (pure_policy p) (rng_drop (Suc (r * ?K)) g) ((traj # new) ! r)"
    proof (cases r)
      case 0
      then show ?thesis using t(2,3,4) by (simp add: rng_drop_0)
    next
      case (Suc r')
      with r have "r' < n" by simp
      with n(3) have
        "length (new ! r') = ?K
        \<and> new ! r' ! 0 = fst (uniform (- 1) 1 (rng_drop (r' * ?K) (rng_drop ?K g)))
        \<and> chain (pure_policy p) (rng_drop (Suc (r' * ?K)) (rng_drop ?K g)) (new ! r')"
        by blast
      moreover have "rng_drop (r' * ?K) (rng_drop ?K g) = rng_drop (Suc r' * ?K) g"
        by (rule rng_drop_drop_eq) simp
      moreover have "rng_drop (Suc (r' * ?K)) (rng_drop ?K g) = rng_drop (Suc (Suc r' * ?K)) g"
        by (rule rng_drop_drop_eq) simp
      ultimately show ?thesis unfolding Suc by simp
    qed
  qed
  show ?case using run each n(2) by (intro exI [of _ "traj # new"]) simp
qed

lemma rng_drop_const: "rng_drop m (const_rng u) = const_rng u"
  by (simp add: rng_drop_def const_rng_def)

lemma const_rng_apply: "const_rng u k = u"
  by (simp add: const_rng_def)

text \<open>
  Claim C6. For every state, every policy that returns an action and every noise draw,
  the simulator's step returns a value in \<open>[-1, 1]\<close>: exactly \<open>1\<close> when
  \<open>policy(s) * s + noise\<close> exceeds \<open>1\<close>, exactly \<open>-1\<close> when it is below \<open>-1\<close>, and the
  pre-clamp value unchanged otherwise. (Any real is the noise of some generator, see
  \<open>noise_any\<close>, so the statement covers noise outside \<open>[-0.5, 0.5]\<close> too.)
\<close>

theorem step_clamps:
  assumes "pol s = Inr a" and "fst (noise g) = nz"
  shows "\<exists>v. step s pol g = Inr (v, snd (noise g))
           \<and> - 1 \<le> v \<and> v \<le> 1
           \<and> (a * s + nz > 1 \<longrightarrow> v = 1)
           \<and> (a * s + nz < - 1 \<longrightarrow> v = - 1)
           \<and> (- 1 \<le> a * s + nz \<and> a * s + nz \<le> 1 \<longrightarrow> v = a * s + nz)"
proof -
  have "step s pol g = Inr (truncate_state (a * s + nz), snd (noise g))"
    using assms by (auto simp: step_def split: prod.splits)
  then show ?thesis by (simp add: truncate_state_def)
qed

theorem step_clamps_witness:
  "pure_policy pi_star (- 1) = Inr 1 \<and> fst (noise (const_rng 0)) = - (1 / 2)
   \<and> step (- 1) (pure_policy pi_star) (const_rng 0) = Inr (- 1, const_rng 0)"
proof -
  have h1: "pure_policy pi_star (- 1) = Inr 1"
    by (simp add: pure_policy_def pi_star_def)
  have h2: "fst (noise (const_rng 0)) = - (1 / 2)"
    by (simp add: noise_def uniform_def const_rng_apply)
  have h3: "snd (noise (const_rng 0)) = const_rng 0"
    by (simp add: noise_def uniform_def rng_drop_const)
  from step_clamps [of "pure_policy pi_star" "- 1" 1 "const_rng 0" "- (1 / 2)", OF h1 h2] h1 h2 h3 show ?thesis by auto
qed

text \<open>
  Claim C7, as amended. For every policy that always returns, every
  \<open>n_trajectories \<ge> 0\<close> and every \<open>trajectory_length \<ge> 1\<close>, the trajectory generator
  returns exactly \<open>n_trajectories\<close> trajectories of exactly \<open>trajectory_length\<close> states
  each; the first state of trajectory \<open>r\<close> is the draw \<open>uniform(-1, 1)\<close> made when the
  trajectory starts (in \<open>[-1, 1]\<close> when the unit draw is in \<open>[0, 1]\<close>), and every later
  state is the simulator's step from the state before it. The generator advances by one
  draw per state.
\<close>

theorem monte_carlo_sim_shape:
  assumes "0 \<le> n_trajectories" and "1 \<le> trajectory_length"
  shows "\<exists>trajs.
      monte_carlo_sim (pure_policy p) n_trajectories trajectory_length g
        = Inr (trajs, rng_drop (nat n_trajectories * nat trajectory_length) g)
    \<and> int (length trajs) = n_trajectories
    \<and> (\<forall>r<length trajs.
          int (length (trajs ! r)) = trajectory_length
        \<and> trajs ! r ! 0 = fst (uniform (- 1) 1 (rng_drop (r * nat trajectory_length) g))
        \<and> (0 \<le> g (r * nat trajectory_length) \<and> g (r * nat trajectory_length) \<le> 1
             \<longrightarrow> - 1 \<le> trajs ! r ! 0 \<and> trajs ! r ! 0 \<le> 1)
        \<and> (\<forall>j. Suc j < length (trajs ! r) \<longrightarrow>
              step (trajs ! r ! j) (pure_policy p) (rng_drop (r * nat trajectory_length + Suc j) g)
                = Inr (trajs ! r ! Suc j, rng_drop (r * nat trajectory_length + Suc (Suc j)) g)))"
proof -
  let ?L = "nat trajectory_length"
  have K: "Suc (nat (trajectory_length - 1)) = ?L" using assms(2) by simp
  from sim_loop_pure [of p "nat n_trajectories" trajectory_length "[]" g]
  obtain trajs where t:
    "sim_loop (pure_policy p) (nat n_trajectories) trajectory_length [] g
       = Inr (trajs, rng_drop (nat n_trajectories * ?L) g)"
    "length trajs = nat n_trajectories"
    "\<forall>r<nat n_trajectories. length (trajs ! r) = ?L
        \<and> trajs ! r ! 0 = fst (uniform (- 1) 1 (rng_drop (r * ?L) g))
        \<and> chain (pure_policy p) (rng_drop (Suc (r * ?L)) g) (trajs ! r)"
    unfolding K by auto
  have each: "\<forall>r<length trajs.
          int (length (trajs ! r)) = trajectory_length
        \<and> trajs ! r ! 0 = fst (uniform (- 1) 1 (rng_drop (r * ?L) g))
        \<and> (0 \<le> g (r * ?L) \<and> g (r * ?L) \<le> 1 \<longrightarrow> - 1 \<le> trajs ! r ! 0 \<and> trajs ! r ! 0 \<le> 1)
        \<and> (\<forall>j. Suc j < length (trajs ! r) \<longrightarrow>
              step (trajs ! r ! j) (pure_policy p) (rng_drop (r * ?L + Suc j) g)
                = Inr (trajs ! r ! Suc j, rng_drop (r * ?L + Suc (Suc j)) g))"
  proof (intro allI impI)
    fix r assume "r < length trajs"
    with t(2,3) have r:
      "length (trajs ! r) = ?L"
      "trajs ! r ! 0 = fst (uniform (- 1) 1 (rng_drop (r * ?L) g))"
      "chain (pure_policy p) (rng_drop (Suc (r * ?L)) g) (trajs ! r)"
      by auto
    have len: "int (length (trajs ! r)) = trajectory_length"
      using r(1) assms(2) by simp
    have rangeI: "0 \<le> g (r * ?L) \<and> g (r * ?L) \<le> 1 \<longrightarrow> - 1 \<le> trajs ! r ! 0 \<and> trajs ! r ! 0 \<le> 1"
      unfolding r(2) by (simp add: uniform_def rng_drop_def)
    have steps: "\<forall>j. Suc j < length (trajs ! r) \<longrightarrow>
              step (trajs ! r ! j) (pure_policy p) (rng_drop (r * ?L + Suc j) g)
                = Inr (trajs ! r ! Suc j, rng_drop (r * ?L + Suc (Suc j)) g)"
    proof (intro allI impI)
      fix j assume "Suc j < length (trajs ! r)"
      with r(3) have "step (trajs ! r ! j) (pure_policy p) (rng_drop j (rng_drop (Suc (r * ?L)) g))
          = Inr (trajs ! r ! Suc j, rng_drop (Suc j) (rng_drop (Suc (r * ?L)) g))"
        by (simp add: chain_def)
      moreover have "rng_drop j (rng_drop (Suc (r * ?L)) g) = rng_drop (r * ?L + Suc j) g"
        by (rule rng_drop_drop_eq) simp
      moreover have "rng_drop (Suc j) (rng_drop (Suc (r * ?L)) g) = rng_drop (r * ?L + Suc (Suc j)) g"
        by (rule rng_drop_drop_eq) simp
      ultimately show "step (trajs ! r ! j) (pure_policy p) (rng_drop (r * ?L + Suc j) g)
                = Inr (trajs ! r ! Suc j, rng_drop (r * ?L + Suc (Suc j)) g)"
        by simp
    qed
    from len r(2) rangeI steps
    show "int (length (trajs ! r)) = trajectory_length
        \<and> trajs ! r ! 0 = fst (uniform (- 1) 1 (rng_drop (r * ?L) g))
        \<and> (0 \<le> g (r * ?L) \<and> g (r * ?L) \<le> 1 \<longrightarrow> - 1 \<le> trajs ! r ! 0 \<and> trajs ! r ! 0 \<le> 1)
        \<and> (\<forall>j. Suc j < length (trajs ! r) \<longrightarrow>
              step (trajs ! r ! j) (pure_policy p) (rng_drop (r * ?L + Suc j) g)
                = Inr (trajs ! r ! Suc j, rng_drop (r * ?L + Suc (Suc j)) g))"
      by blast
  qed
  have "int (length trajs) = n_trajectories" using t(2) assms(1) by simp
  with t(1) each show ?thesis
    unfolding monte_carlo_sim_def by blast
qed

theorem monte_carlo_sim_shape_witness:
  "(0::int) \<le> 2 \<and> (1::int) \<le> 2
   \<and> monte_carlo_sim (pure_policy pi_star) 2 2 (const_rng (3/4))
       = Inr ([[1/2, - (1/4)], [1/2, - (1/4)]], const_rng (3/4))"
proof -
  have h1: "(0::int) \<le> 2" and h2: "(1::int) \<le> 2" by simp_all
  from monte_carlo_sim_shape [OF h1 h2, of pi_star "const_rng (3/4)"]
  obtain trajs where t:
    "monte_carlo_sim (pure_policy pi_star) 2 2 (const_rng (3/4))
        = Inr (trajs, rng_drop (nat 2 * nat 2) (const_rng (3/4)))"
    "int (length trajs) = 2"
    "\<forall>r<length trajs.
          int (length (trajs ! r)) = 2
        \<and> trajs ! r ! 0 = fst (uniform (- 1) 1 (rng_drop (r * nat 2) (const_rng (3/4))))
        \<and> (\<forall>j. Suc j < length (trajs ! r) \<longrightarrow>
              step (trajs ! r ! j) (pure_policy pi_star) (rng_drop (r * nat 2 + Suc j) (const_rng (3/4)))
                = Inr (trajs ! r ! Suc j, rng_drop (r * nat 2 + Suc (Suc j)) (const_rng (3/4))))"
    by blast
  have ev: "monte_carlo_sim (pure_policy pi_star) 2 2 (const_rng (3/4))
       = Inr ([[1/2, - (1/4)], [1/2, - (1/4)]], const_rng (3/4))"
    by (simp add: monte_carlo_sim_def numeral_2_eq_2 uniform_def rng_drop_const const_rng_apply
        step_def pure_policy_def pi_star_def noise_def truncate_state_def)
  with t(1) h1 h2 show ?thesis by simp
qed

text \<open>
  Claim C7 as stated (every \<open>trajectory_length\<close>) fails for \<open>trajectory_length = 0\<close>: the
  trajectory always holds its initial state, so it has one state, not zero.
\<close>

theorem monte_carlo_sim_zero_length_counterexample:
  "monte_carlo_sim (pure_policy pi_star) 1 0 (const_rng (1/2)) = Inr ([[0]], const_rng (1/2))
    \<and> int (length [0::real]) \<noteq> 0"
  by (simp add: monte_carlo_sim_def uniform_def rng_drop_const const_rng_apply)

section \<open>Value estimator\<close>

lemma norm_pdf_spec: "norm_pdf s mu sigma = spec_gaussian_pdf mu sigma s"
  by (simp add: norm_pdf_def spec_gaussian_pdf_def power_divide mult.commute)

lemma two_ratio: "r \<noteq> 0 \<Longrightarrow> - 1 + 2 * r / r = (1::real)"
  by simp

lemma np_linspace_unit:
  assumes "0 \<le> n"
  shows "np_linspace (- 1) 1 n = Inr (map (spec_basis_mean n) [0..<nat n])"
proof -
  consider "n = 0" | "n = 1" | "2 \<le> n" using assms by linarith
  then show ?thesis
  proof cases
    case 1
    then show ?thesis by (simp add: np_linspace_def)
  next
    case 2
    then show ?thesis by (simp add: np_linspace_def spec_basis_mean_def)
  next
    case 3
    let ?y = "map (\<lambda>i. real i * ((1 - (- 1)) / real_of_int (n - 1)) + (- 1)) [0..<nat n]"
    have "?y[nat n - 1 := 1] = map (spec_basis_mean n) [0..<nat n]"
    proof (rule nth_equalityI)
      show "length (?y[nat n - 1 := 1]) = length (map (spec_basis_mean n) [0..<nat n])"
        by simp
    next
      fix i assume "i < length (?y[nat n - 1 := 1])"
      then have i: "i < nat n" by simp
      show "?y[nat n - 1 := 1] ! i = map (spec_basis_mean n) [0..<nat n] ! i"
      proof (cases "i = nat n - 1")
        case True
        have r: "real (nat n - 1) = real_of_int (n - 1)" using 3 by simp
        have nz: "real_of_int (n - 1) \<noteq> 0" using 3 by simp
        have "spec_basis_mean n (nat n - 1) = - 1 + 2 * real_of_int (n - 1) / real_of_int (n - 1)"
          using 3 by (simp only: spec_basis_mean_def r) simp
        also have "\<dots> = 1" using nz by (rule two_ratio)
        finally show ?thesis using i True by simp
      next
        case False
        then show ?thesis using i 3
          by (simp add: spec_basis_mean_def)
      qed
    qed
    then show ?thesis using 3 by (simp add: np_linspace_def Let_def)
  qed
qed

lemma discounted_sum:
  assumes "length traj = T"
  shows "np_mul (map (\<lambda>s. norm_pdf s m sd) traj) (map (\<lambda>t. discount ^ t) [0..<T])
         = Inr (map (\<lambda>t. norm_pdf (traj ! t) m sd * discount ^ t) [0..<T])"
  using assms
  by (auto simp: np_mul_def np_broadcast2_def intro!: nth_equalityI)

lemma sum_list_upt: "sum_list (map f [0..<T]) = (\<Sum>t<T. f t)"
  by (simp add: sum_list_sum_nth atLeast0LessThan)

lemma traj_returns_loop_rect:
  assumes "\<forall>traj\<in>set trajs. length traj = T"
  shows "traj_returns_loop m sd (map (\<lambda>t. discount ^ t) [0..<T]) trajs
         = Inr (map (\<lambda>traj. \<Sum>t<T. discount ^ t * norm_pdf (traj ! t) m sd) trajs)"
  using assms
proof (induction trajs)
  case Nil
  then show ?case by simp
next
  case (Cons traj rest)
  then have "length traj = T" by simp
  from discounted_sum [OF this] Cons show ?case
    by (simp add: sum_list_upt mult.commute)
qed

lemma values_loop_total:
  assumes "length vals = i + length ms"
    and "\<And>m. traj_returns_loop m sd ds trajs = Inr (R m)"
  shows "values_loop i ms sd ds trajs vals
         = Inr (take i vals @ map (\<lambda>m. if length (R m) > 0 then np_mean (R m) else 0) ms)"
  using assms(1)
proof (induction ms arbitrary: i vals)
  case Nil
  then show ?case by simp
next
  case (Cons m ms)
  let ?v = "if length (R m) > 0 then np_mean (R m) else 0"
  have i: "i < length vals" using Cons.prems by simp
  have len: "length (vals[i := ?v]) = Suc i + length ms" using Cons.prems by simp
  have tk: "\<And>v. take (Suc i) (vals[i := v]) = take i vals @ [v]"
    using i by (simp add: take_Suc_conv_app_nth)
  show ?case
    using Cons.IH [OF len] assms(2) [of m] by (simp add: tk)
qed


lemma calc_rect:
  assumes "\<forall>traj\<in>set trajectories. length traj = T"
    and "trajectories = [] \<longrightarrow> T = 0"
    and "0 \<le> n_basis"
  shows "calc_value_function_estimate trajectories discount n_basis
         = Inr (map (\<lambda>i.
             let returns = map (\<lambda>traj. \<Sum>t<T. discount ^ t
                                  * norm_pdf (traj ! t) (spec_basis_mean n_basis i) (2 / 22))
                             trajectories
             in if length returns > 0 then np_mean returns else 0) [0..<nat n_basis])"
proof -
  have T: "(if length trajectories > 0 then length (trajectories ! 0) else 0) = T"
    using assms(1,2) by (cases trajectories) auto
  have R: "\<And>m sd. traj_returns_loop m sd (map (\<lambda>t. discount ^ t) [0..<T]) trajectories
         = Inr (map (\<lambda>traj. \<Sum>t<T. discount ^ t * norm_pdf (traj ! t) m sd) trajectories)"
    using assms(1) by (rule traj_returns_loop_rect)
  have len: "length (np_zeros (nat n_basis)) = 0 + length (map (spec_basis_mean n_basis) [0..<nat n_basis])"
    by (simp add: np_zeros_def)
  note vl = values_loop_total [OF len R]
  show ?thesis
    unfolding calc_value_function_estimate_def np_linspace_unit [OF assms(3)] Let_def T
    by (simp add: vl comp_def)
qed

text \<open>
  Claim C3. For a non-empty batch of trajectories that all have length \<open>T\<close> (and a
  non-negative \<open>n_basis\<close>), the estimator returns a vector of length \<open>n_basis\<close> whose
  component \<open>i\<close> is the average over the trajectories of the discounted sum
  \<open>\<Sum>t<T. discount ^ t * \<phi>\<^sub>i (s\<^sub>t)\<close>, \<open>\<phi>\<^sub>i\<close> being the Gaussian density with the \<open>i\<close>-th of
  the \<open>n_basis\<close> evenly spaced means over \<open>[-1, 1]\<close> and standard deviation \<open>2/22\<close>.
\<close>

theorem value_estimate_is_average_discounted_sum:
  assumes "trajectories \<noteq> []"
    and "\<forall>traj\<in>set trajectories. length traj = T"
    and "0 \<le> n_basis"
  shows "\<exists>vals. calc_value_function_estimate trajectories discount n_basis = Inr vals
           \<and> length vals = nat n_basis
           \<and> (\<forall>i<nat n_basis.
                 vals ! i =
                   (\<Sum>traj\<leftarrow>trajectories.
                      \<Sum>t<T. discount ^ t
                              * spec_gaussian_pdf (spec_basis_mean n_basis i) (2 / 22) (traj ! t))
                   / real (length trajectories))"
proof -
  have "trajectories = [] \<longrightarrow> T = 0" using assms(1) by simp
  from calc_rect [OF assms(2) this assms(3), of discount] assms(1)
  show ?thesis
    by (simp add: Let_def np_mean_def norm_pdf_spec)
qed

theorem value_estimate_is_average_discounted_sum_witness:
  "\<exists>vals. calc_value_function_estimate [[0, 1 / 2], [1, - 1]] (9 / 10) 3 = Inr vals
      \<and> length vals = 3
      \<and> vals ! 1 =
          ((spec_gaussian_pdf 0 (2 / 22) 0 + 9 / 10 * spec_gaussian_pdf 0 (2 / 22) (1 / 2))
           + (spec_gaussian_pdf 0 (2 / 22) 1 + 9 / 10 * spec_gaussian_pdf 0 (2 / 22) (- 1))) / 2"
proof -
  have h1: "[[0, 1 / 2], [1, - 1 :: real]] \<noteq> []" by simp
  have h2: "\<forall>traj\<in>set [[0, 1 / 2], [1, - 1 :: real]]. length traj = 2" by simp
  have h3: "(0::int) \<le> 3" by simp
  from value_estimate_is_average_discounted_sum [OF h1 h2 h3, of "9 / 10"]
  obtain vals where v:
    "calc_value_function_estimate [[0, 1 / 2], [1, - 1]] (9 / 10) 3 = Inr vals"
    "length vals = nat 3"
    "\<forall>i<nat 3. vals ! i =
        (\<Sum>traj\<leftarrow>[[0, 1 / 2], [1, - 1]].
           \<Sum>t<2. (9 / 10) ^ t * spec_gaussian_pdf (spec_basis_mean 3 i) (2 / 22) (traj ! t))
        / real (length [[0, 1 / 2], [1, - 1 :: real]])"
    by blast
  from v(3) have "vals ! 1 =
        (\<Sum>traj\<leftarrow>[[0, 1 / 2], [1, - 1]].
           \<Sum>t<2. (9 / 10) ^ t * spec_gaussian_pdf (spec_basis_mean 3 1) (2 / 22) (traj ! t))
        / real (length [[0, 1 / 2], [1, - 1 :: real]])"
    by simp
  then have "vals ! 1 =
          ((spec_gaussian_pdf 0 (2 / 22) 0 + 9 / 10 * spec_gaussian_pdf 0 (2 / 22) (1 / 2))
           + (spec_gaussian_pdf 0 (2 / 22) 1 + 9 / 10 * spec_gaussian_pdf 0 (2 / 22) (- 1))) / 2"
    by (simp add: spec_basis_mean_def numeral_2_eq_2)
  with v(1,2) show ?thesis by simp
qed

text \<open>
  Claim C9. On an empty trajectory batch the estimator raises nothing and returns the
  all-zero vector of length \<open>n_basis\<close>.
\<close>

theorem empty_batch_gives_zero_vector:
  assumes "0 \<le> n_basis"
  shows "calc_value_function_estimate [] discount n_basis = Inr (replicate (nat n_basis) 0)"
proof -
  have "\<forall>traj\<in>set ([] :: real list list). length traj = 0" by simp
  from calc_rect [OF this _ assms, of discount]
  show ?thesis by (simp add: map_replicate_const)
qed

theorem empty_batch_gives_zero_vector_witness:
  "(0::int) \<le> 3 \<and> calc_value_function_estimate [] (9 / 10) 3 = Inr [0, 0, 0]"
  using empty_batch_gives_zero_vector [of 3 "9 / 10"]
  by (simp add: numeral_3_eq_3)

section \<open>Weight-recovery solver\<close>

lemma np_sub_same: "length a = length b \<Longrightarrow> np_sub a b = Inr (map2 (\<lambda>u v. u - v) a b)"
  by (simp add: np_sub_def np_broadcast2_def)

lemma np_iadd_same: "length b = length a \<Longrightarrow> np_iadd a b = Inr (map2 (\<lambda>u v. u + v) a b)"
  by (simp add: np_iadd_def)

lemma diff_loop_shaped:
  assumes "\<forall>j\<in>set js. length (vs ! j) = length V"
    and "length acc = length V"
  shows "diff_loop V vs js acc
         = Inr (map (\<lambda>i. acc ! i + sum_list (map (\<lambda>j. V ! i - vs ! j ! i) js)) [0..<length V])"
  using assms
proof (induction js arbitrary: acc)
  case Nil
  then show ?case by (auto intro!: nth_equalityI)
next
  case (Cons j js)
  let ?d = "map2 (\<lambda>u v. u - v) V (vs ! j)"
  let ?t = "map2 (\<lambda>u v. u + v) acc ?d"
  have lj: "length (vs ! j) = length V" using Cons.prems(1) by simp
  have s: "np_sub V (vs ! j) = Inr ?d" using lj by (simp add: np_sub_same)
  have a: "np_iadd acc ?d = Inr ?t" using lj Cons.prems(2) by (simp add: np_iadd_same)
  have lt: "length ?t = length V" using lj Cons.prems(2) by simp
  have rest: "\<forall>j\<in>set js. length (vs ! j) = length V" using Cons.prems(1) by simp
  have "diff_loop V vs (j # js) acc = diff_loop V vs js ?t"
    using s a by simp
  also have "\<dots> = Inr (map (\<lambda>i. ?t ! i + sum_list (map (\<lambda>j. V ! i - vs ! j ! i) js)) [0..<length V])"
    by (rule Cons.IH [OF rest lt])
  also have "\<dots> = Inr (map (\<lambda>i. acc ! i + sum_list (map (\<lambda>j. V ! i - vs ! j ! i) (j # js))) [0..<length V])"
    using lj Cons.prems(2) by simp
  finally show ?case .
qed

lemma butlast_map_nth: "map ((!) xs) [0..<length xs - 1] = butlast xs"
  by (rule nth_equalityI) (simp_all add: nth_butlast)

lemma total_diff_spec:
  assumes "hist \<noteq> []" and "\<forall>v\<in>set hist. length v = length (last hist)"
  shows "diff_loop (last hist) hist [0..<length hist - 1] (np_zeros (length (last hist)))
         = Inr (spec_total_diff hist)"
proof -
  have sh: "\<forall>j\<in>set [0..<length hist - 1]. length (hist ! j) = length (last hist)"
    using assms(2) by simp
  have z: "length (np_zeros (length (last hist))) = length (last hist)"
    by (simp add: np_zeros_def)
  have m: "\<And>i. map (\<lambda>j. last hist ! i - hist ! j ! i) [0..<length hist - 1]
              = map (\<lambda>v. last hist ! i - v ! i) (butlast hist)"
  proof -
    fix i
    have "map (\<lambda>v. last hist ! i - v ! i) (butlast hist)
          = map (\<lambda>v. last hist ! i - v ! i) (map ((!) hist) [0..<length hist - 1])"
      by (simp only: butlast_map_nth)
    then show "map (\<lambda>j. last hist ! i - hist ! j ! i) [0..<length hist - 1]
              = map (\<lambda>v. last hist ! i - v ! i) (butlast hist)"
      by (simp add: comp_def)
  qed
  show ?thesis
    unfolding diff_loop_shaped [OF sh z] spec_total_diff_def m
    by (simp add: np_zeros_def)
qed

lemma dot_uminus: "dot (map uminus a) y = - dot a y"
proof (induction a arbitrary: y)
  case Nil
  then show ?case by (simp add: dot_def)
next
  case (Cons u a)
  then show ?case by (cases y) (simp_all add: dot_def)
qed

lemma solve_shaped:
  assumes "hist \<noteq> []" and "\<forall>v\<in>set hist. length v = length (last hist)"
  shows "solve_lp_for_alphas backend vp hist =
     (let c = map uminus (spec_total_diff hist) in
        case backend c (np_eye (length c)) (np_ones (length c)) (0, 1) of
          Inl e \<Rightarrow> Inl e
        | Inr res \<Rightarrow>
            if lp_success res then Inr (lp_x res)
            else Inl (ValueError ''LP did not find a feasible solution.''))"
  using assms(1) unfolding solve_lp_for_alphas_def Let_def total_diff_spec [OF assms]
  by simp


lemma box_vertex_optimal:
  assumes "length y = length c" and "in_unit_box y"
  shows "dot c (map (\<lambda>ci. if ci < 0 then 1 else 0) c) \<le> dot c y"
  using assms
proof (induction y c rule: list_induct2)
  case Nil
  then show ?case by (simp add: dot_def)
next
  case (Cons yi y ci c)
  then have b: "0 \<le> yi" "yi \<le> 1" and r: "in_unit_box y"
    by (simp_all add: in_unit_box_def)
  have "ci * (if ci < 0 then 1 else 0) \<le> ci * yi"
  proof (cases "ci < 0")
    case True
    then have "ci * 1 \<le> ci * yi" using b(2) by (intro mult_left_mono_neg) simp_all
    with True show ?thesis by simp
  next
    case False
    then have "0 \<le> ci * yi" using b(1) by simp
    with False show ?thesis by simp
  qed
  moreover have "dot c (map (\<lambda>ci. if ci < 0 then 1 else 0) c) \<le> dot c y"
    by (rule Cons.IH [OF r])
  ultimately show ?case by (simp add: dot_def)
qed

lemma box_vertex_in_box: "in_unit_box (map (\<lambda>ci. if ci < 0 then 1 else 0) c)"
  by (induction c) (simp_all add: in_unit_box_def)

lemma box_vertex_solves_box: "linprog_solves_box box_vertex_linprog"
  unfolding linprog_solves_box_def
  by (auto simp: box_vertex_linprog_def box_vertex_in_box box_vertex_optimal)

lemma box_vertex_respects_bounds: "linprog_respects_bounds box_vertex_linprog"
  unfolding linprog_respects_bounds_def
  by (auto simp: box_vertex_linprog_def list_all_iff split: if_splits)

lemma solve_optimal:
  assumes "linprog_solves_box backend"
    and "hist \<noteq> []" and "last hist \<noteq> []"
    and "\<forall>v\<in>set hist. length v = length (last hist)"
  shows "\<exists>alpha. solve_lp_for_alphas backend vp hist = Inr alpha
           \<and> length alpha = length (last hist) \<and> in_unit_box alpha
           \<and> (\<forall>y. length y = length (last hist) \<and> in_unit_box y
                  \<longrightarrow> dot (spec_total_diff hist) y \<le> dot (spec_total_diff hist) alpha)"
proof -
  let ?c = "map uminus (spec_total_diff hist)"
  have ne: "?c \<noteq> []" and lc: "length ?c = length (last hist)"
    using assms(3) by (simp_all add: spec_total_diff_def)
  from assms(1) ne obtain res where res:
    "backend ?c (np_eye (length ?c)) (np_ones (length ?c)) (0, 1) = Inr res"
    "lp_success res" "length (lp_x res) = length ?c" "in_unit_box (lp_x res)"
    "\<forall>y. length y = length ?c \<and> in_unit_box y \<longrightarrow> dot ?c (lp_x res) \<le> dot ?c y"
    unfolding linprog_solves_box_def by blast
  have "solve_lp_for_alphas backend vp hist = Inr (lp_x res)"
    using res(1,2) by (simp add: solve_shaped [OF assms(2,4)] Let_def)
  moreover have "\<forall>y. length y = length (last hist) \<and> in_unit_box y
                  \<longrightarrow> dot (spec_total_diff hist) y \<le> dot (spec_total_diff hist) (lp_x res)"
    using res(5) unfolding lc dot_uminus by simp
  ultimately show ?thesis using res(3,4) lc by auto
qed

lemma spec_total_diff_scenario: "spec_total_diff [[1, 1, 1], [3, 2, 1]] = [2, 1, 0]"
  by (simp add: spec_total_diff_def upt_rec numeral_3_eq_3)

text \<open>
  Claim C1. With a backend that solves the box problem, for every value history
  \<open>cands @ [V_star]\<close> of estimates of one (non-zero) length with at least one candidate,
  the solver returns an alpha in the unit box that maximises \<open>total_diff \<bullet> alpha\<close> over
  the box, \<open>total_diff\<close> being the sum over the candidates of \<open>V_star - V\<^sub>j\<close>. For the
  expert estimate \<open>[3, 2, 1]\<close> and the candidate \<open>[1, 1, 1]\<close> the returned alpha has
  \<open>alpha\<^sub>0 = 1\<close> and \<open>alpha\<^sub>1 = 1\<close>, and \<open>alpha\<^sub>2\<close> anywhere in \<open>[0, 1]\<close>.
\<close>

theorem solver_maximizes_margin:
  assumes "linprog_solves_box backend"
  shows "(\<forall>cands V_star.
            cands \<noteq> [] \<and> V_star \<noteq> [] \<and> (\<forall>v\<in>set cands. length v = length V_star)
            \<longrightarrow> (\<exists>alpha. solve_lp_for_alphas backend vp (cands @ [V_star]) = Inr alpha
                   \<and> length alpha = length V_star \<and> in_unit_box alpha
                   \<and> (\<forall>y. length y = length V_star \<and> in_unit_box y
                          \<longrightarrow> dot (spec_total_diff (cands @ [V_star])) y
                               \<le> dot (spec_total_diff (cands @ [V_star])) alpha)))
       \<and> (\<exists>alpha. solve_lp_for_alphas backend vp [[1, 1, 1], [3, 2, 1]] = Inr alpha
              \<and> length alpha = 3 \<and> alpha ! 0 = 1 \<and> alpha ! 1 = 1
              \<and> 0 \<le> alpha ! 2 \<and> alpha ! 2 \<le> 1)"
proof (intro conjI allI impI)
  fix cands :: "vec list" and V_star :: vec
  assume h: "cands \<noteq> [] \<and> V_star \<noteq> [] \<and> (\<forall>v\<in>set cands. length v = length V_star)"
  then have "cands @ [V_star] \<noteq> []" "last (cands @ [V_star]) \<noteq> []"
    "\<forall>v\<in>set (cands @ [V_star]). length v = length (last (cands @ [V_star]))"
    by auto
  from solve_optimal [OF assms this, of vp]
  show "\<exists>alpha. solve_lp_for_alphas backend vp (cands @ [V_star]) = Inr alpha
                   \<and> length alpha = length V_star \<and> in_unit_box alpha
                   \<and> (\<forall>y. length y = length V_star \<and> in_unit_box y
                          \<longrightarrow> dot (spec_total_diff (cands @ [V_star])) y
                               \<le> dot (spec_total_diff (cands @ [V_star])) alpha)"
    by simp
next
  have "\<exists>alpha. solve_lp_for_alphas backend vp [[1, 1, 1], [3, 2, 1]] = Inr alpha
           \<and> length alpha = length (last [[1, 1, 1], [3, 2, 1 :: real]]) \<and> in_unit_box alpha
           \<and> (\<forall>y. length y = length (last [[1, 1, 1], [3, 2, 1 :: real]]) \<and> in_unit_box y
                  \<longrightarrow> dot (spec_total_diff [[1, 1, 1], [3, 2, 1]]) y
                       \<le> dot (spec_total_diff [[1, 1, 1], [3, 2, 1]]) alpha)"
    by (rule solve_optimal [OF assms]) simp_all
  then obtain alpha where a:
    "solve_lp_for_alphas backend vp [[1, 1, 1], [3, 2, 1]] = Inr alpha"
    "length alpha = 3" "in_unit_box alpha"
    "\<forall>y. length y = 3 \<and> in_unit_box y \<longrightarrow> dot [2, 1, 0] y \<le> dot [2, 1, 0] alpha"
    unfolding spec_total_diff_scenario by auto
  from a(2) obtain a0 a1 a2 where al: "alpha = [a0, a1, a2]"
    by (auto simp: numeral_3_eq_3 length_Suc_conv)
  have box: "0 \<le> a0" "a0 \<le> 1" "0 \<le> a1" "a1 \<le> 1" "0 \<le> a2" "a2 \<le> 1"
    using a(3) unfolding al by (simp_all add: in_unit_box_def)
  have "dot [2, 1, 0] [1, 1, 0] \<le> dot [2, 1, 0] alpha"
    using a(4) by (simp add: in_unit_box_def)
  then have "3 \<le> 2 * a0 + a1" unfolding al by (simp add: dot_def)
  with box have "a0 = 1" "a1 = 1" by linarith+
  with a(1,2) box show "\<exists>alpha. solve_lp_for_alphas backend vp [[1, 1, 1], [3, 2, 1]] = Inr alpha
              \<and> length alpha = 3 \<and> alpha ! 0 = 1 \<and> alpha ! 1 = 1
              \<and> 0 \<le> alpha ! 2 \<and> alpha ! 2 \<le> 1"
    unfolding al by simp
qed

theorem solver_maximizes_margin_witness:
  "linprog_solves_box box_vertex_linprog
   \<and> solve_lp_for_alphas box_vertex_linprog [] [[1, 1, 1], [3, 2, 1]] = Inr [1, 1, 0]
   \<and> dot (spec_total_diff [[1, 1, 1], [3, 2, 1]]) [1, 1, 0] = 3"
proof -
  from solver_maximizes_margin [OF box_vertex_solves_box, of "[]"]
  obtain alpha where a:
    "solve_lp_for_alphas box_vertex_linprog [] [[1, 1, 1], [3, 2, 1]] = Inr alpha"
    "length alpha = 3" "alpha ! 0 = 1" "alpha ! 1 = 1"
    by blast
  have ev: "solve_lp_for_alphas box_vertex_linprog [] [[1, 1, 1], [3, 2, 1]] = Inr [1, 1, 0]"
    by (simp add: solve_lp_for_alphas_def upt_rec np_sub_def np_broadcast2_def np_iadd_def
        np_zeros_def box_vertex_linprog_def numeral_3_eq_3)
  have d: "dot (spec_total_diff [[1, 1, 1], [3, 2, 1]]) [1, 1, 0] = 3"
    by (simp add: spec_total_diff_scenario dot_def)
  from a(1) ev have "alpha = [1, 1, 0]" by simp
  with a(1) d box_vertex_solves_box show ?thesis by simp
qed

text \<open>
  Claim C5. With a backend whose successful results satisfy the bounds they were given,
  every component of an alpha the solver returns lies in \<open>[0, 1]\<close>, whatever the value
  history.
\<close>

theorem solver_output_in_unit_box:
  assumes "linprog_respects_bounds backend"
    and "solve_lp_for_alphas backend vp hist = Inr alpha"
  shows "\<forall>i<length alpha. 0 \<le> alpha ! i \<and> alpha ! i \<le> 1"
proof -
  from assms(2) obtain c A_ub b_ub res where
    "backend c A_ub b_ub (0, 1) = Inr res" "lp_success res" "alpha = lp_x res"
    unfolding solve_lp_for_alphas_def Let_def
    by (auto split: if_splits sum.splits)
  with assms(1) have "list_all (\<lambda>a. 0 \<le> a \<and> a \<le> 1) alpha"
    unfolding linprog_respects_bounds_def by blast
  then show ?thesis by (simp add: list_all_length)
qed

theorem solver_output_in_unit_box_witness:
  "linprog_respects_bounds box_vertex_linprog
   \<and> solve_lp_for_alphas box_vertex_linprog [3, 2, 1] [[1, 1, 1], [3, 2, 1]] = Inr [1, 1, 0]
   \<and> list_all (\<lambda>a. 0 \<le> a \<and> a \<le> 1) [1, 1, 0 :: real]"
proof -
  have s: "solve_lp_for_alphas box_vertex_linprog [3, 2, 1] [[1, 1, 1], [3, 2, 1]] = Inr [1, 1, 0]"
    by (simp add: solve_lp_for_alphas_def upt_rec np_sub_def np_broadcast2_def np_iadd_def
        np_zeros_def box_vertex_linprog_def numeral_3_eq_3)
  from solver_output_in_unit_box [OF box_vertex_respects_bounds s]
  show ?thesis using s by (simp add: box_vertex_respects_bounds)
qed

text \<open>
  Claim C10. The solver's result does not depend on its first parameter: two calls that
  differ only in \<open>value_pi_star\<close> return the same alpha or raise the same error.
\<close>

theorem solver_ignores_first_argument:
  "solve_lp_for_alphas backend value_pi_star hist = solve_lp_for_alphas backend value_pi_star' hist"
  by (simp add: solve_lp_for_alphas_def)

section \<open>IRL driver\<close>

lemma irl_loop_after_run:
  assumes "irl_run backend discount n_basis pp k st0 = Some st"
  shows "irl_loop backend discount n_basis pp (k + left) 0 st0
         = irl_loop backend discount n_basis pp left k st"
  using assms
proof (induction k arbitrary: st left)
  case 0
  then show ?case by simp
next
  case (Suc k)
  from Suc.prems obtain st1 where r:
    "irl_run backend discount n_basis pp k st0 = Some st1"
    "irl_iter backend discount n_basis pp k st1 = Continue st"
    by (auto split: option.splits control.splits)
  have "irl_loop backend discount n_basis pp (k + Suc left) 0 st0
        = irl_loop backend discount n_basis pp (Suc left) k st1"
    by (rule Suc.IH [OF r(1)])
  also have "\<dots> = irl_loop backend discount n_basis pp left (Suc k) st"
    using r(2) by simp
  finally show ?case by simp
qed

lemma irl_iter_Continue_history:
  assumes "irl_iter backend discount n_basis pp i st = Continue st'"
  shows "\<exists>v. st_value_functions st' = v # st_value_functions st"
  using assms unfolding irl_iter_def Let_def
  by (auto split: sum.splits prod.splits bool.splits)

lemma irl_iter_Return_history:
  assumes "irl_iter backend discount n_basis pp i st = Return ((a, vfs), eff)"
  shows "\<exists>v. vfs = v # st_value_functions st"
  using assms unfolding irl_iter_def Let_def
  by (auto split: sum.splits prod.splits bool.splits)

lemma irl_iter_Return_index:
  assumes "irl_iter backend discount n_basis pp i st = Return r"
  shows "4 \<le> i"
  using assms unfolding irl_iter_def Let_def convergence_test_def
  by (auto split: sum.splits prod.splits bool.splits if_splits)

lemma irl_run_history:
  assumes "irl_run backend discount n_basis pp k st0 = Some st"
  shows "\<exists>news. st_value_functions st = news @ st_value_functions st0 \<and> length news = k"
  using assms
proof (induction k arbitrary: st)
  case 0
  then show ?case by simp
next
  case (Suc k)
  from Suc.prems obtain st1 where r:
    "irl_run backend discount n_basis pp k st0 = Some st1"
    "irl_iter backend discount n_basis pp k st1 = Continue st"
    by (auto split: option.splits control.splits)
  from Suc.IH [OF r(1)] obtain news where
    n: "st_value_functions st1 = news @ st_value_functions st0" "length news = k" by blast
  from irl_iter_Continue_history [OF r(2)] obtain v where
    "st_value_functions st = v # st_value_functions st1" by blast
  with n have "st_value_functions st = (v # news) @ st_value_functions st0 \<and> length (v # news) = Suc k"
    by simp
  then show ?case by blast
qed

lemma irl_loop_history:
  assumes "irl_loop backend discount n_basis pp left i st = Inr ((a, vfs), eff)"
  shows "\<exists>news. vfs = news @ st_value_functions st \<and> length news \<le> left"
  using assms
proof (induction left arbitrary: i st)
  case 0
  then show ?case by simp
next
  case (Suc left)
  show ?case
  proof (cases "irl_iter backend discount n_basis pp i st")
    case (Raise e)
    with Suc.prems show ?thesis by simp
  next
    case (Return r)
    with Suc.prems have "irl_iter backend discount n_basis pp i st = Return ((a, vfs), eff)"
      by simp
    from irl_iter_Return_history [OF this] obtain v where "vfs = [v] @ st_value_functions st"
      by auto
    then show ?thesis by (intro exI [of _ "[v]"]) simp
  next
    case (Continue st')
    with Suc.prems have "irl_loop backend discount n_basis pp left (Suc i) st' = Inr ((a, vfs), eff)"
      by simp
    from Suc.IH [OF this] obtain news where
      n: "vfs = news @ st_value_functions st'" "length news \<le> left" by blast
    from irl_iter_Continue_history [OF Continue] obtain v where
      "st_value_functions st' = v # st_value_functions st" by blast
    with n show ?thesis by (intro exI [of _ "news @ [v]"]) simp
  qed
qed

lemma irl_init_history:
  assumes "irl_init choice data discount n_basis g = Inr st0"
  shows "\<exists>V. calc_value_function_estimate data discount n_basis = Inr V
            \<and> st_value_functions st0 = [V]"
  using assms unfolding irl_init_def
  by (auto split: sum.splits prod.splits)


lemma construct_random_policy_pure:
  "\<exists>p g1. construct_random_policy choice g = Inr (pure_policy p, g1)"
  unfolding construct_random_policy_def
  by (simp add: np_linspace_unit split: prod.splits, blast)

lemma monte_carlo_sim_rect:
  "\<exists>trajs g'. monte_carlo_sim (pure_policy p) 20 20 g = Inr (trajs, g')
      \<and> trajs \<noteq> [] \<and> (\<forall>traj\<in>set trajs. length traj = 20)"
proof -
  from sim_loop_pure [of p "nat 20" 20 "[]" g]
  obtain new where n:
    "sim_loop (pure_policy p) (nat 20) 20 [] g = Inr ([] @ new, rng_drop (nat 20 * Suc (nat (20 - 1))) g)"
    "length new = nat 20"
    "\<forall>r<nat 20. length (new ! r) = Suc (nat (20 - 1))"
    by blast
  have "\<forall>traj\<in>set new. length traj = 20"
    using n(2,3) by (auto simp: in_set_conv_nth)
  moreover have "new \<noteq> []" using n(2) by auto
  ultimately show ?thesis using n(1) unfolding monte_carlo_sim_def by auto
qed

lemma norm_pdf_nonneg: "0 < scale \<Longrightarrow> 0 \<le> norm_pdf s loc scale"
  by (simp add: norm_pdf_def)

lemma calc_shape:
  assumes "\<forall>traj\<in>set trajectories. length traj = T"
    and "trajectories = [] \<longrightarrow> T = 0"
    and "0 \<le> n_basis"
  shows "\<exists>V. calc_value_function_estimate trajectories discount n_basis = Inr V
          \<and> length V = nat n_basis \<and> (0 \<le> discount \<longrightarrow> (\<forall>i<nat n_basis. 0 \<le> V ! i))"
proof -
  have nn: "0 \<le> discount \<Longrightarrow> 0 \<le> np_mean (map (\<lambda>traj. \<Sum>t<T. discount ^ t
                                  * norm_pdf (traj ! t) m (2 / 22)) trajectories)" for m
    unfolding np_mean_def
    by (intro divide_nonneg_nonneg sum_list_nonneg)
       (auto intro!: sum_nonneg mult_nonneg_nonneg norm_pdf_nonneg)
  show ?thesis
    unfolding calc_rect [OF assms] using nn by (simp add: Let_def)
qed

lemma reward_function_total:
  assumes "0 \<le> n_basis" and "length alpha = nat n_basis"
  shows "\<exists>r. reward_function s alpha n_basis = Inr r"
  using assms unfolding reward_function_def np_linspace_unit [OF assms(1)]
  by (simp add: np_mul_def np_broadcast2_def Let_def)

lemma pi_updated_pure:
  assumes "0 \<le> n_basis" and "length alpha = nat n_basis"
  shows "\<exists>p. pi_updated alpha n_basis = pure_policy p"
proof -
  have "\<forall>s. \<exists>r. reward_function s alpha n_basis = Inr r"
    using reward_function_total [OF assms] by blast
  then obtain R where R: "\<And>s. reward_function s alpha n_basis = Inr (R s)" by metis
  have "pi_updated alpha n_basis = pure_policy (\<lambda>s. if R s > 0.5 then 1 else - 1)"
    unfolding pi_updated_def pure_policy_def by (simp add: R)
  then show ?thesis by blast
qed

lemma irl_iter_unfold:
  assumes "monte_carlo_sim (st_pi_current st) 20 20 (st_rng st) = Inr (trajs, g')"
    and "calc_value_function_estimate trajs discount n_basis = Inr V"
  shows "irl_iter backend discount n_basis pp i st =
     (case solve_lp_for_alphas backend (last (V # st_value_functions st)) (V # st_value_functions st) of
        Inl e \<Rightarrow> Raise e
      | Inr alpha_next \<Rightarrow>
          (case convergence_test i alpha_next (st_alpha st) of
             Inl e \<Rightarrow> Raise e
           | Inr True \<Rightarrow>
               Return ((alpha_next, V # st_value_functions st), g',
                       st_out st @ (if pp then [Converged_at (i + 1)] else []))
           | Inr False \<Rightarrow>
               Continue \<lparr> st_alpha = alpha_next,
                          st_value_functions = V # st_value_functions st,
                          st_pi_current = pi_updated alpha_next n_basis,
                          st_rng = g',
                          st_out = st_out st @
                            (if pp then [Iteration (i + 1), Print_alpha alpha_next] else []) \<rparr>))"
  by (simp add: irl_iter_def assms Let_def)

lemma irl_iter_sampling:
  assumes "st_pi_current st = pure_policy p" and "0 \<le> n_basis"
  shows "\<exists>trajs g' V. monte_carlo_sim (st_pi_current st) 20 20 (st_rng st) = Inr (trajs, g')
           \<and> calc_value_function_estimate trajs discount n_basis = Inr V
           \<and> length V = nat n_basis \<and> (0 \<le> discount \<longrightarrow> (\<forall>i<nat n_basis. 0 \<le> V ! i))"
proof -
  from monte_carlo_sim_rect [of p "st_rng st"] obtain trajs g' where
    m: "monte_carlo_sim (pure_policy p) 20 20 (st_rng st) = Inr (trajs, g')"
       "trajs \<noteq> []" "\<forall>traj\<in>set trajs. length traj = 20" by blast
  have "trajs = [] \<longrightarrow> (20::nat) = 0" using m(2) by simp
  from calc_shape [OF m(3) this assms(2), of discount] m(1) assms(1)
  show ?thesis by auto
qed


lemma convergence_test_zero:
  "convergence_test i [0] [0] = Inr (4 \<le> i)"
  by (simp add: convergence_test_def np_sub_def np_broadcast2_def np_max_def)

lemma solve_zero_expert:
  assumes "\<forall>v\<in>set cands. length v = 1 \<and> 0 \<le> v ! 0"
  shows "solve_lp_for_alphas box_vertex_linprog vp (cands @ [[0]]) = Inr [0]"
proof -
  let ?hist = "cands @ [[0 :: real]]"
  have ne: "?hist \<noteq> []" by simp
  have sh: "\<forall>v\<in>set ?hist. length v = length (last ?hist)" using assms by simp
  define c0 where "c0 = sum_list (map (\<lambda>v. v ! 0) cands)"
  have "0 \<le> sum_list (map (\<lambda>v. v ! 0) cands)"
    using assms by (intro sum_list_nonneg) auto
  moreover have "sum_list (map (\<lambda>v. - (v ! 0)) cands) = - sum_list (map (\<lambda>v. v ! 0) cands)"
    by (induction cands) simp_all
  ultimately have c: "map uminus (spec_total_diff ?hist) = [c0]" "0 \<le> c0"
    by (simp_all add: spec_total_diff_def c0_def)
  have "box_vertex_linprog [c0] (np_eye (length [c0])) (np_ones (length [c0])) (0, 1)
        = Inr \<lparr> lp_success = True, lp_x = [0] \<rparr>"
    using c(2) by (simp add: box_vertex_linprog_def)
  then show ?thesis
    unfolding solve_shaped [OF ne sh] Let_def c(1) by simp
qed

lemma zero_expert_step:
  assumes "st_alpha st = [0]" and "st_pi_current st = pure_policy p"
    and "st_value_functions st = news @ [[0]]"
    and "\<forall>v\<in>set news. length v = 1 \<and> 0 \<le> v ! 0"
    and "0 \<le> discount"
  shows "\<exists>V g'. length V = 1 \<and> 0 \<le> V ! 0
     \<and> irl_iter box_vertex_linprog discount 1 pp i st =
         (if 4 \<le> i
          then Return (([0], V # st_value_functions st), g',
                       st_out st @ (if pp then [Converged_at (i + 1)] else []))
          else Continue \<lparr> st_alpha = [0],
                          st_value_functions = V # st_value_functions st,
                          st_pi_current = pi_updated [0] 1,
                          st_rng = g',
                          st_out = st_out st @
                            (if pp then [Iteration (i + 1), Print_alpha [0]] else []) \<rparr>)"
proof -
  have n1: "(0::int) \<le> 1" by simp
  from irl_iter_sampling [OF assms(2) n1, of discount] assms(5)
  obtain trajs g' V where s:
    "monte_carlo_sim (st_pi_current st) 20 20 (st_rng st) = Inr (trajs, g')"
    "calc_value_function_estimate trajs discount 1 = Inr V"
    "length V = 1" "0 \<le> V ! 0"
    by auto
  have "\<forall>v\<in>set (V # news). length v = 1 \<and> 0 \<le> v ! 0"
    using s(3,4) assms(4) by simp
  from solve_zero_expert [OF this]
  have sol: "\<And>vp. solve_lp_for_alphas box_vertex_linprog vp (V # st_value_functions st) = Inr [0]"
    unfolding assms(3) by simp
  have "irl_iter box_vertex_linprog discount 1 pp i st =
         (if 4 \<le> i
          then Return (([0], V # st_value_functions st), g',
                       st_out st @ (if pp then [Converged_at (i + 1)] else []))
          else Continue \<lparr> st_alpha = [0],
                          st_value_functions = V # st_value_functions st,
                          st_pi_current = pi_updated [0] 1,
                          st_rng = g',
                          st_out = st_out st @
                            (if pp then [Iteration (i + 1), Print_alpha [0]] else []) \<rparr>)"
    by (simp add: irl_iter_unfold [OF s(1,2)] sol assms(1) convergence_test_zero)
  with s(3,4) show ?thesis by blast
qed

lemma zero_expert_run:
  assumes "st_alpha st0 = [0]" and "st_pi_current st0 = pure_policy p0"
    and "st_value_functions st0 = [[0]]" and "st_out st0 = []"
    and "0 \<le> discount" and "k \<le> 4"
  shows "\<exists>st p news. irl_run box_vertex_linprog discount 1 pp k st0 = Some st
     \<and> st_alpha st = [0] \<and> st_pi_current st = pure_policy p
     \<and> st_value_functions st = news @ [[0]] \<and> length news = k
     \<and> (\<forall>v\<in>set news. length v = 1 \<and> 0 \<le> v ! 0)
     \<and> st_out st = (if pp then concat (map (\<lambda>j. [Iteration (Suc j), Print_alpha [0]]) [0..<k]) else [])"
  using assms(6)
proof (induction k)
  case 0
  then show ?case using assms(1-4) by auto
next
  case (Suc k)
  then have "k \<le> 4" and k4: "\<not> 4 \<le> k" by simp_all
  from Suc.IH [OF this(1)] obtain st p news where r:
    "irl_run box_vertex_linprog discount 1 pp k st0 = Some st"
    "st_alpha st = [0]" "st_pi_current st = pure_policy p"
    "st_value_functions st = news @ [[0]]" "length news = k"
    "\<forall>v\<in>set news. length v = 1 \<and> 0 \<le> v ! 0"
    "st_out st = (if pp then concat (map (\<lambda>j. [Iteration (Suc j), Print_alpha [0]]) [0..<k]) else [])"
    by blast
  from zero_expert_step [OF r(2,3,4,6) assms(5), of pp k] k4
  obtain V g' where v: "length V = 1" "0 \<le> V ! 0"
    "irl_iter box_vertex_linprog discount 1 pp k st =
       Continue \<lparr> st_alpha = [0],
                  st_value_functions = V # st_value_functions st,
                  st_pi_current = pi_updated [0] 1,
                  st_rng = g',
                  st_out = st_out st @ (if pp then [Iteration (k + 1), Print_alpha [0]] else []) \<rparr>"
    by auto
  let ?st' = "\<lparr> st_alpha = [0],
                  st_value_functions = V # st_value_functions st,
                  st_pi_current = pi_updated [0] 1,
                  st_rng = g',
                  st_out = st_out st @ (if pp then [Iteration (k + 1), Print_alpha [0]] else []) \<rparr>"
  have run: "irl_run box_vertex_linprog discount 1 pp (Suc k) st0 = Some ?st'"
    using r(1) v(3) by simp
  from pi_updated_pure [of 1 "[0]"] obtain p' where p': "pi_updated [0] 1 = pure_policy p'"
    by auto
  have "st_alpha ?st' = [0] \<and> st_pi_current ?st' = pure_policy p'
     \<and> st_value_functions ?st' = (V # news) @ [[0]] \<and> length (V # news) = Suc k
     \<and> (\<forall>v\<in>set (V # news). length v = 1 \<and> 0 \<le> v ! 0)
     \<and> st_out ?st' = (if pp then concat (map (\<lambda>j. [Iteration (Suc j), Print_alpha [0]]) [0..<Suc k]) else [])"
    using r(4,5,6,7) v(1,2) p' by simp
  with run show ?case by blast
qed

lemma irl_init_empty_data:
  "\<exists>p g1. irl_init choice [] discount 1 g =
     Inr \<lparr> st_alpha = [0], st_value_functions = [[0]], st_pi_current = pure_policy p,
           st_rng = g1, st_out = [] \<rparr>"
proof -
  have "\<forall>traj\<in>set ([] :: real list list). length traj = 0" by simp
  from calc_rect [OF this, of 1 discount]
  have c: "calc_value_function_estimate [] discount 1 = Inr [0]" by simp
  from construct_random_policy_pure [of choice g] obtain p g1 where
    "construct_random_policy choice g = Inr (pure_policy p, g1)" by blast
  with c show ?thesis by (auto simp: irl_init_def np_zeros_def)
qed

lemma zero_expert_converges:
  assumes "0 \<le> discount" and "5 \<le> max_iter"
  shows "\<exists>st0 st4 vfs g'.
       irl_init choice [] discount 1 g = Inr st0
     \<and> irl_run box_vertex_linprog discount 1 pp 4 st0 = Some st4
     \<and> st_alpha st4 = [0]
     \<and> irl_iter box_vertex_linprog discount 1 pp 4 st4
         = Return (([0], vfs), g',
             if pp then [Iteration 1, Print_alpha [0], Iteration 2, Print_alpha [0],
                         Iteration 3, Print_alpha [0], Iteration 4, Print_alpha [0],
                         Converged_at 5]
             else [])
     \<and> lp_irl_sample_trajectories box_vertex_linprog choice [] max_iter pp discount 1 g
         = Inr (([0], vfs), g',
             if pp then [Iteration 1, Print_alpha [0], Iteration 2, Print_alpha [0],
                         Iteration 3, Print_alpha [0], Iteration 4, Print_alpha [0],
                         Converged_at 5]
             else [])
     \<and> length vfs = 6 \<and> last vfs = [0]"
proof -
  let ?out = "if pp then [Iteration 1, Print_alpha [0], Iteration 2, Print_alpha [0],
                         Iteration 3, Print_alpha [0], Iteration 4, Print_alpha [0],
                         Converged_at 5]
             else []"
  from irl_init_empty_data [of choice discount g] obtain p0 g1 where
    i: "irl_init choice [] discount 1 g =
     Inr \<lparr> st_alpha = [0], st_value_functions = [[0]], st_pi_current = pure_policy p0,
           st_rng = g1, st_out = [] \<rparr>" by blast
  let ?st0 = "\<lparr> st_alpha = [0], st_value_functions = [[0]], st_pi_current = pure_policy p0,
           st_rng = g1, st_out = [] \<rparr>"
  have "\<exists>st p news. irl_run box_vertex_linprog discount 1 pp 4 ?st0 = Some st
     \<and> st_alpha st = [0] \<and> st_pi_current st = pure_policy p
     \<and> st_value_functions st = news @ [[0]] \<and> length news = 4
     \<and> (\<forall>v\<in>set news. length v = 1 \<and> 0 \<le> v ! 0)
     \<and> st_out st = (if pp then concat (map (\<lambda>j. [Iteration (Suc j), Print_alpha [0]]) [0..<4]) else [])"
    by (rule zero_expert_run [OF _ _ _ _ assms(1)]) simp_all
  then obtain st4 p news where r:
    "irl_run box_vertex_linprog discount 1 pp 4 ?st0 = Some st4"
    "st_alpha st4 = [0]" "st_pi_current st4 = pure_policy p"
    "st_value_functions st4 = news @ [[0]]" "length news = 4"
    "\<forall>v\<in>set news. length v = 1 \<and> 0 \<le> v ! 0"
    "st_out st4 = (if pp then concat (map (\<lambda>j. [Iteration (Suc j), Print_alpha [0]]) [0..<4]) else [])"
    by blast
  from zero_expert_step [OF r(2,3,4,6) assms(1), of pp 4]
  obtain V g' where v:
    "irl_iter box_vertex_linprog discount 1 pp 4 st4 =
       Return (([0], V # st_value_functions st4), g',
               st_out st4 @ (if pp then [Converged_at (4 + 1)] else []))"
    by auto
  have out: "st_out st4 @ (if pp then [Converged_at (4 + 1)] else []) = ?out"
    unfolding r(7) by (simp add: upt_rec [of 0] upt_rec [of 1] upt_rec [of 2] upt_rec [of 3]
        upt_rec [of "Suc 0"] upt_rec [of "Suc (Suc 0)"] eval_nat_numeral)
  have it: "irl_iter box_vertex_linprog discount 1 pp 4 st4 =
       Return (([0], V # st_value_functions st4), g', ?out)"
    using v out by simp
  have m: "nat max_iter = 4 + Suc (nat max_iter - 5)" using assms(2) by simp
  have "irl_loop box_vertex_linprog discount 1 pp (4 + Suc (nat max_iter - 5)) 0 ?st0
        = irl_loop box_vertex_linprog discount 1 pp (Suc (nat max_iter - 5)) 4 st4"
    by (rule irl_loop_after_run [OF r(1)])
  then have "irl_loop box_vertex_linprog discount 1 pp (nat max_iter) 0 ?st0
        = irl_loop box_vertex_linprog discount 1 pp (Suc (nat max_iter - 5)) 4 st4"
    by (simp only: m [symmetric])
  also have "\<dots> = Inr (([0], V # st_value_functions st4), g', ?out)"
    using it by simp
  finally have drv: "lp_irl_sample_trajectories box_vertex_linprog choice [] max_iter pp discount 1 g
        = Inr (([0], V # st_value_functions st4), g', ?out)"
    unfolding lp_irl_sample_trajectories_def i by simp
  have "length (V # st_value_functions st4) = 6 \<and> last (V # st_value_functions st4) = [0]"
    using r(4,5) by simp
  with i r(1,2) it drv show ?thesis by blast
qed


lemma irl_iter_Return_form:
  assumes "irl_iter backend discount n_basis pp i st = Return r"
  shows "\<exists>a V g'. r = ((a, V # st_value_functions st), g',
                        st_out st @ (if pp then [Converged_at (i + 1)] else []))"
  using assms unfolding irl_iter_def Let_def
  by (auto split: sum.splits prod.splits bool.splits)

lemma irl_iter_Continue_form:
  assumes "irl_iter backend discount n_basis pp i st = Continue st'"
  shows "\<exists>a V. st_value_functions st' = V # st_value_functions st \<and> st_alpha st' = a
           \<and> st_out st' = st_out st @ (if pp then [Iteration (i + 1), Print_alpha a] else [])"
  using assms unfolding irl_iter_def Let_def
  by (auto split: sum.splits prod.splits bool.splits)

lemma irl_loop_converged_log:
  assumes "irl_loop backend discount n_basis pp left i st = Inr ((a, vfs), g', out)"
    and "\<forall>k. Converged_at k \<notin> set (st_out st)"
    and "length (st_value_functions st) = i + 1"
  shows "\<forall>k. Converged_at k \<in> set out \<longrightarrow> 5 \<le> k \<and> length vfs = k + 1"
  using assms
proof (induction left arbitrary: i st)
  case 0
  then show ?case by auto
next
  case (Suc left)
  show ?case
  proof (cases "irl_iter backend discount n_basis pp i st")
    case (Raise e)
    with Suc.prems(1) show ?thesis by simp
  next
    case (Return r)
    from irl_iter_Return_form [OF Return] obtain a' V g'' where
      r: "r = ((a', V # st_value_functions st), g'',
               st_out st @ (if pp then [Converged_at (i + 1)] else []))" by blast
    from irl_iter_Return_index [OF Return] have i4: "4 \<le> i" .
    from Suc.prems(1) Return r have
      "vfs = V # st_value_functions st"
      "out = st_out st @ (if pp then [Converged_at (i + 1)] else [])" by simp_all
    with Suc.prems(2,3) i4 show ?thesis by (auto split: if_splits)
  next
    case (Continue st')
    from irl_iter_Continue_form [OF Continue] obtain a' V where
      c: "st_value_functions st' = V # st_value_functions st"
         "st_out st' = st_out st @ (if pp then [Iteration (i + 1), Print_alpha a'] else [])"
      by blast
    have 1: "irl_loop backend discount n_basis pp left (Suc i) st' = Inr ((a, vfs), g', out)"
      using Suc.prems(1) Continue by simp
    have 2: "\<forall>k. Converged_at k \<notin> set (st_out st')"
      using Suc.prems(2) c(2) by auto
    have 3: "length (st_value_functions st') = Suc i + 1"
      using Suc.prems(3) c(1) by simp
    from Suc.IH [OF 1 2 3] show ?thesis .
  qed
qed

lemma irl_init_out:
  assumes "irl_init choice data discount n_basis g = Inr st0"
  shows "st_out st0 = []"
  using assms unfolding irl_init_def
  by (auto split: sum.splits prod.splits)

lemma irl_init_shaped:
  assumes "\<forall>traj\<in>set data. length traj = T" and "data = [] \<longrightarrow> T = 0" and "0 \<le> n_basis"
  shows "\<exists>p V g1. irl_init choice data discount n_basis g =
           Inr \<lparr> st_alpha = np_zeros (nat n_basis), st_value_functions = [V],
                 st_pi_current = pure_policy p, st_rng = g1, st_out = [] \<rparr>
         \<and> length V = nat n_basis"
proof -
  from calc_shape [OF assms, of discount] obtain V where
    v: "calc_value_function_estimate data discount n_basis = Inr V" "length V = nat n_basis"
    by blast
  from construct_random_policy_pure [of choice g] obtain p g1 where
    "construct_random_policy choice g = Inr (pure_policy p, g1)" by blast
  with v show ?thesis by (auto simp: irl_init_def)
qed

lemma failing_backend_raises:
  assumes "st_pi_current st = pure_policy p" and "0 \<le> n_basis"
    and "\<forall>v\<in>set (st_value_functions st). length v = nat n_basis"
  shows "irl_iter failing_linprog discount n_basis pp i st
         = Raise (ValueError ''LP did not find a feasible solution.'')"
proof -
  from irl_iter_sampling [OF assms(1,2), of discount]
  obtain trajs g' V where s:
    "monte_carlo_sim (st_pi_current st) 20 20 (st_rng st) = Inr (trajs, g')"
    "calc_value_function_estimate trajs discount n_basis = Inr V"
    "length V = nat n_basis"
    by blast
  let ?hist = "V # st_value_functions st"
  have ne: "?hist \<noteq> []" by simp
  have "last ?hist \<in> set ?hist" by (rule last_in_set) simp
  then have "length (last ?hist) = nat n_basis" using s(3) assms(3) by auto
  then have sh: "\<forall>v\<in>set ?hist. length v = length (last ?hist)"
    using s(3) assms(3) by auto
  have "solve_lp_for_alphas failing_linprog (last ?hist) ?hist
        = Inl (ValueError ''LP did not find a feasible solution.'')"
    unfolding solve_shaped [OF ne sh] by (simp add: failing_linprog_def Let_def)
  then show ?thesis
    unfolding irl_iter_unfold [OF s(1,2)] by simp
qed


lemma driver_is_loop_after_run:
  assumes "irl_init choice data discount n_basis g = Inr st0"
    and "irl_run backend discount n_basis pp k st0 = Some st"
    and "int k < max_iter"
  shows "lp_irl_sample_trajectories backend choice data max_iter pp discount n_basis g
         = (case irl_iter backend discount n_basis pp k st of
              Raise e \<Rightarrow> Inl e
            | Return r \<Rightarrow> Inr r
            | Continue st' \<Rightarrow>
                irl_loop backend discount n_basis pp (nat max_iter - Suc k) (Suc k) st')"
proof -
  have m: "k + Suc (nat max_iter - Suc k) = nat max_iter" using assms(3) by simp
  have "irl_loop backend discount n_basis pp (k + Suc (nat max_iter - Suc k)) 0 st0
        = irl_loop backend discount n_basis pp (Suc (nat max_iter - Suc k)) k st"
    by (rule irl_loop_after_run [OF assms(2)])
  then have "irl_loop backend discount n_basis pp (nat max_iter) 0 st0
        = irl_loop backend discount n_basis pp (Suc (nat max_iter - Suc k)) k st"
    by (simp only: m)
  then show ?thesis
    unfolding lp_irl_sample_trajectories_def assms(1) by simp
qed

text \<open>
  Claim C2. No pass of the loop before the fifth returns from the driver: with index
  \<open>i < 4\<close> the pass falls through whatever the two alphas are, the test
  \<open>max |alpha_next - alpha| < 0.1\<close> being evaluated only for \<open>i \<ge> 4\<close>; when it holds
  there the pass returns the candidate alpha with the history it has just extended, and
  the driver returns that value. Every \<open>Converged at iteration k\<close> the driver prints
  has \<open>k \<ge> 5\<close>, and the history it returns then holds \<open>k + 1\<close> estimates.
\<close>

theorem driver_convergence_guard:
  "(\<forall>r. irl_iter backend discount n_basis pp i st = Return r \<longrightarrow> 4 \<le> i)
   \<and> (\<forall>trajs g' V alpha_next.
         monte_carlo_sim (st_pi_current st) 20 20 (st_rng st) = Inr (trajs, g')
       \<and> calc_value_function_estimate trajs discount n_basis = Inr V
       \<and> solve_lp_for_alphas backend (last (V # st_value_functions st)) (V # st_value_functions st)
           = Inr alpha_next
       \<longrightarrow> (i < 4 \<longrightarrow>
              irl_iter backend discount n_basis pp i st =
                Continue \<lparr> st_alpha = alpha_next,
                           st_value_functions = V # st_value_functions st,
                           st_pi_current = pi_updated alpha_next n_basis,
                           st_rng = g',
                           st_out = st_out st @
                             (if pp then [Iteration (i + 1), Print_alpha alpha_next] else []) \<rparr>)
         \<and> (\<forall>dlt m. 4 \<le> i \<and> np_sub alpha_next (st_alpha st) = Inr dlt
                 \<and> np_max (map abs dlt) = Inr m
              \<longrightarrow> irl_iter backend discount n_basis pp i st =
                   (if m < 0.1
                    then Return ((alpha_next, V # st_value_functions st), g',
                                 st_out st @ (if pp then [Converged_at (i + 1)] else []))
                    else Continue \<lparr> st_alpha = alpha_next,
                           st_value_functions = V # st_value_functions st,
                           st_pi_current = pi_updated alpha_next n_basis,
                           st_rng = g',
                           st_out = st_out st @
                             (if pp then [Iteration (i + 1), Print_alpha alpha_next] else []) \<rparr>)))
   \<and> (\<forall>st0 k st' r.
         irl_init choice data discount n_basis g = Inr st0
       \<and> irl_run backend discount n_basis pp k st0 = Some st'
       \<and> int k < max_iter
       \<and> irl_iter backend discount n_basis pp k st' = Return r
       \<longrightarrow> 5 \<le> k + 1
         \<and> lp_irl_sample_trajectories backend choice data max_iter pp discount n_basis g = Inr r)
   \<and> (\<forall>a vfs g' out k.
         lp_irl_sample_trajectories backend choice data max_iter pp discount n_basis g
           = Inr ((a, vfs), g', out)
       \<and> Converged_at k \<in> set out
       \<longrightarrow> 5 \<le> k \<and> length vfs = k + 1)"
proof (intro conjI allI impI)
  fix r assume "irl_iter backend discount n_basis pp i st = Return r"
  then show "4 \<le> i" by (rule irl_iter_Return_index)
next
  fix trajs g' V alpha_next
  assume h: "monte_carlo_sim (st_pi_current st) 20 20 (st_rng st) = Inr (trajs, g')
       \<and> calc_value_function_estimate trajs discount n_basis = Inr V
       \<and> solve_lp_for_alphas backend (last (V # st_value_functions st)) (V # st_value_functions st)
           = Inr alpha_next"
  assume "i < 4"
  then have "convergence_test i alpha_next (st_alpha st) = Inr False"
    by (simp add: convergence_test_def)
  with h show "irl_iter backend discount n_basis pp i st =
                Continue \<lparr> st_alpha = alpha_next,
                           st_value_functions = V # st_value_functions st,
                           st_pi_current = pi_updated alpha_next n_basis,
                           st_rng = g',
                           st_out = st_out st @
                             (if pp then [Iteration (i + 1), Print_alpha alpha_next] else []) \<rparr>"
    by (simp add: irl_iter_unfold [of st trajs g' discount n_basis V])
next
  fix trajs g' V alpha_next dlt m
  assume h: "monte_carlo_sim (st_pi_current st) 20 20 (st_rng st) = Inr (trajs, g')
       \<and> calc_value_function_estimate trajs discount n_basis = Inr V
       \<and> solve_lp_for_alphas backend (last (V # st_value_functions st)) (V # st_value_functions st)
           = Inr alpha_next"
  assume "4 \<le> i \<and> np_sub alpha_next (st_alpha st) = Inr dlt \<and> np_max (map abs dlt) = Inr m"
  then have "convergence_test i alpha_next (st_alpha st) = Inr (m < 0.1)"
    by (simp add: convergence_test_def)
  with h show "irl_iter backend discount n_basis pp i st =
                   (if m < 0.1
                    then Return ((alpha_next, V # st_value_functions st), g',
                                 st_out st @ (if pp then [Converged_at (i + 1)] else []))
                    else Continue \<lparr> st_alpha = alpha_next,
                           st_value_functions = V # st_value_functions st,
                           st_pi_current = pi_updated alpha_next n_basis,
                           st_rng = g',
                           st_out = st_out st @
                             (if pp then [Iteration (i + 1), Print_alpha alpha_next] else []) \<rparr>)"
    by (simp add: irl_iter_unfold [of st trajs g' discount n_basis V])
next
  fix st0 k st' r
  assume h: "irl_init choice data discount n_basis g = Inr st0
       \<and> irl_run backend discount n_basis pp k st0 = Some st'
       \<and> int k < max_iter
       \<and> irl_iter backend discount n_basis pp k st' = Return r"
  then have "4 \<le> k" using irl_iter_Return_index by blast
  then show "5 \<le> k + 1" by simp
  from h have a: "irl_init choice data discount n_basis g = Inr st0"
    and b: "irl_run backend discount n_basis pp k st0 = Some st'"
    and c: "int k < max_iter" by simp_all
  from h show "lp_irl_sample_trajectories backend choice data max_iter pp discount n_basis g = Inr r"
    unfolding driver_is_loop_after_run [OF a b c] by simp
next
  fix a vfs g' out k
  assume h: "lp_irl_sample_trajectories backend choice data max_iter pp discount n_basis g
           = Inr ((a, vfs), g', out)
       \<and> Converged_at k \<in> set out"
  then obtain st0 where i: "irl_init choice data discount n_basis g = Inr st0"
    and l: "irl_loop backend discount n_basis pp (nat max_iter) 0 st0 = Inr ((a, vfs), g', out)"
    unfolding lp_irl_sample_trajectories_def by (auto split: sum.splits)
  from irl_init_out [OF i] have o: "\<forall>k. Converged_at k \<notin> set (st_out st0)" by simp
  from irl_init_history [OF i] have len: "length (st_value_functions st0) = 0 + 1" by auto
  from irl_loop_converged_log [OF l o len] h
  show "5 \<le> k" and "length vfs = k + 1" by blast+
qed

theorem driver_convergence_guard_witness:
  "\<exists>vfs g'.
     lp_irl_sample_trajectories box_vertex_linprog unit_choice [] 20 True (9 / 10) 1 (const_rng (1 / 2))
       = Inr (([0], vfs), g',
              [Iteration 1, Print_alpha [0], Iteration 2, Print_alpha [0],
               Iteration 3, Print_alpha [0], Iteration 4, Print_alpha [0], Converged_at 5])
     \<and> length vfs = 5 + 1"
proof -
  let ?out = "[Iteration 1, Print_alpha [0], Iteration 2, Print_alpha [0],
               Iteration 3, Print_alpha [0], Iteration 4, Print_alpha [0], Converged_at 5]"
  have d: "(0::real) \<le> 9 / 10" and m: "(5::int) \<le> 20" by simp_all
  from zero_expert_converges [OF d m, where choice = unit_choice and g = "const_rng (1 / 2)"
      and pp = True]
  obtain st0 st4 vfs g' where z:
    "irl_init unit_choice [] (9 / 10) 1 (const_rng (1 / 2)) = Inr st0"
    "irl_run box_vertex_linprog (9 / 10) 1 True 4 st0 = Some st4"
    "irl_iter box_vertex_linprog (9 / 10) 1 True 4 st4 = Return (([0], vfs), g', ?out)"
    by auto
  note guard = driver_convergence_guard [where backend = box_vertex_linprog and choice = unit_choice and data = "[]"
      and max_iter = 20 and pp = True and discount = "9 / 10" and n_basis = 1
      and g = "const_rng (1 / 2)"]
  have k: "int 4 < 20" by simp
  from guard z k have drv:
    "lp_irl_sample_trajectories box_vertex_linprog unit_choice [] 20 True (9 / 10) 1 (const_rng (1 / 2))
       = Inr (([0], vfs), g', ?out)"
    by blast
  moreover have "Converged_at 5 \<in> set ?out" by simp
  ultimately have "length vfs = 5 + 1" using guard by blast
  with drv show ?thesis by blast
qed


lemma irl_iter_Continue_estimate:
  assumes "irl_iter backend discount n_basis pp i st = Continue st'"
  shows "\<exists>trajs g' V.
           monte_carlo_sim (st_pi_current st) 20 20 (st_rng st) = Inr (trajs, g')
         \<and> calc_value_function_estimate trajs discount n_basis = Inr V
         \<and> st_value_functions st' = V # st_value_functions st"
  using assms unfolding irl_iter_def Let_def
  by (auto split: sum.splits prod.splits bool.splits)

lemma irl_iter_Return_estimate:
  assumes "irl_iter backend discount n_basis pp i st = Return ((a, vfs), eff)"
  shows "\<exists>trajs g' V.
           monte_carlo_sim (st_pi_current st) 20 20 (st_rng st) = Inr (trajs, g')
         \<and> calc_value_function_estimate trajs discount n_basis = Inr V
         \<and> vfs = V # st_value_functions st"
  using assms unfolding irl_iter_def Let_def
  by (auto split: sum.splits prod.splits bool.splits)

text \<open>
  Claim C4. The history starts as the one-element list holding the expert's estimate,
  computed during initialisation. At the top of the loop after \<open>k\<close> passes it holds
  \<open>k + 1\<close> estimates and its last element is still the expert's. A pass, whether it
  falls through or returns, puts exactly one new element in front of the history: the
  estimate \<open>calc_value_function_estimate\<close> computes from the batch the pass has just
  simulated under the current policy. Whatever the driver returns has the expert's
  estimate last.
\<close>

theorem value_history_invariant:
  assumes "irl_init choice data discount n_basis g = Inr st0"
  shows "\<exists>V_star.
       calc_value_function_estimate data discount n_basis = Inr V_star
     \<and> st_value_functions st0 = [V_star]
     \<and> (\<forall>k st. irl_run backend discount n_basis pp k st0 = Some st \<longrightarrow>
            length (st_value_functions st) = k + 1
          \<and> last (st_value_functions st) = V_star
          \<and> (\<forall>st'. irl_iter backend discount n_basis pp k st = Continue st' \<longrightarrow>
                 (\<exists>trajs g' V.
                     monte_carlo_sim (st_pi_current st) 20 20 (st_rng st) = Inr (trajs, g')
                   \<and> calc_value_function_estimate trajs discount n_basis = Inr V
                   \<and> st_value_functions st' = V # st_value_functions st))
          \<and> (\<forall>a vfs eff. irl_iter backend discount n_basis pp k st = Return ((a, vfs), eff) \<longrightarrow>
                 (\<exists>trajs g' V.
                     monte_carlo_sim (st_pi_current st) 20 20 (st_rng st) = Inr (trajs, g')
                   \<and> calc_value_function_estimate trajs discount n_basis = Inr V
                   \<and> vfs = V # st_value_functions st)
               \<and> length vfs = k + 2 \<and> last vfs = V_star))
     \<and> (\<forall>a vfs eff.
           lp_irl_sample_trajectories backend choice data max_iter pp discount n_basis g
             = Inr ((a, vfs), eff)
           \<longrightarrow> last vfs = V_star \<and> 1 \<le> length vfs \<and> length vfs \<le> nat max_iter + 1)"
proof -
  from irl_init_history [OF assms] obtain V_star where
    v: "calc_value_function_estimate data discount n_basis = Inr V_star"
       "st_value_functions st0 = [V_star]" by blast
  have run: "\<forall>k st. irl_run backend discount n_basis pp k st0 = Some st \<longrightarrow>
            length (st_value_functions st) = k + 1
          \<and> last (st_value_functions st) = V_star
          \<and> (\<forall>st'. irl_iter backend discount n_basis pp k st = Continue st' \<longrightarrow>
                 (\<exists>trajs g' V.
                     monte_carlo_sim (st_pi_current st) 20 20 (st_rng st) = Inr (trajs, g')
                   \<and> calc_value_function_estimate trajs discount n_basis = Inr V
                   \<and> st_value_functions st' = V # st_value_functions st))
          \<and> (\<forall>a vfs eff. irl_iter backend discount n_basis pp k st = Return ((a, vfs), eff) \<longrightarrow>
                 (\<exists>trajs g' V.
                     monte_carlo_sim (st_pi_current st) 20 20 (st_rng st) = Inr (trajs, g')
                   \<and> calc_value_function_estimate trajs discount n_basis = Inr V
                   \<and> vfs = V # st_value_functions st)
               \<and> length vfs = k + 2 \<and> last vfs = V_star)"
  proof (rule allI, rule allI, rule impI)
    fix k st assume "irl_run backend discount n_basis pp k st0 = Some st"
    from irl_run_history [OF this] obtain news0 where
      "st_value_functions st = news0 @ st_value_functions st0" "length news0 = k" by blast
    then have n: "st_value_functions st = news0 @ [V_star]" "length news0 = k"
      by (simp_all add: v(2))
    have 1: "length (st_value_functions st) = k + 1"
      using n by simp
    have 2: "last (st_value_functions st) = V_star"
      using n by simp
    have 3: "\<forall>st'. irl_iter backend discount n_basis pp k st = Continue st' \<longrightarrow>
                 (\<exists>trajs g' V.
                     monte_carlo_sim (st_pi_current st) 20 20 (st_rng st) = Inr (trajs, g')
                   \<and> calc_value_function_estimate trajs discount n_basis = Inr V
                   \<and> st_value_functions st' = V # st_value_functions st)"
    proof (rule allI, rule impI)
      fix st' assume "irl_iter backend discount n_basis pp k st = Continue st'"
      then show "\<exists>trajs g' V.
                     monte_carlo_sim (st_pi_current st) 20 20 (st_rng st) = Inr (trajs, g')
                   \<and> calc_value_function_estimate trajs discount n_basis = Inr V
                   \<and> st_value_functions st' = V # st_value_functions st"
        by (rule irl_iter_Continue_estimate)
    qed
    have 4: "\<forall>a vfs eff. irl_iter backend discount n_basis pp k st = Return ((a, vfs), eff) \<longrightarrow>
                 (\<exists>trajs g' V.
                     monte_carlo_sim (st_pi_current st) 20 20 (st_rng st) = Inr (trajs, g')
                   \<and> calc_value_function_estimate trajs discount n_basis = Inr V
                   \<and> vfs = V # st_value_functions st)
               \<and> length vfs = k + 2 \<and> last vfs = V_star"
    proof (rule allI, rule allI, rule allI, rule impI)
      fix a vfs eff
      assume i: "irl_iter backend discount n_basis pp k st = Return ((a, vfs), eff)"
      have e: "\<exists>trajs g' V.
                     monte_carlo_sim (st_pi_current st) 20 20 (st_rng st) = Inr (trajs, g')
                   \<and> calc_value_function_estimate trajs discount n_basis = Inr V
                   \<and> vfs = V # st_value_functions st"
        using i by (rule irl_iter_Return_estimate)
      from irl_iter_Return_history [OF i] obtain w where w: "vfs = w # st_value_functions st"
        by blast
      have l: "length vfs = k + 2" unfolding w n(1) using n(2) by simp
      have t: "last vfs = V_star" unfolding w n(1) by simp
      from e l t show "(\<exists>trajs g' V.
                     monte_carlo_sim (st_pi_current st) 20 20 (st_rng st) = Inr (trajs, g')
                   \<and> calc_value_function_estimate trajs discount n_basis = Inr V
                   \<and> vfs = V # st_value_functions st)
               \<and> length vfs = k + 2 \<and> last vfs = V_star"
        by (intro conjI)
    qed
    from 1 2 3 4 show "length (st_value_functions st) = k + 1
          \<and> last (st_value_functions st) = V_star
          \<and> (\<forall>st'. irl_iter backend discount n_basis pp k st = Continue st' \<longrightarrow>
                 (\<exists>trajs g' V.
                     monte_carlo_sim (st_pi_current st) 20 20 (st_rng st) = Inr (trajs, g')
                   \<and> calc_value_function_estimate trajs discount n_basis = Inr V
                   \<and> st_value_functions st' = V # st_value_functions st))
          \<and> (\<forall>a vfs eff. irl_iter backend discount n_basis pp k st = Return ((a, vfs), eff) \<longrightarrow>
                 (\<exists>trajs g' V.
                     monte_carlo_sim (st_pi_current st) 20 20 (st_rng st) = Inr (trajs, g')
                   \<and> calc_value_function_estimate trajs discount n_basis = Inr V
                   \<and> vfs = V # st_value_functions st)
               \<and> length vfs = k + 2 \<and> last vfs = V_star)"
      by (intro conjI)
  qed
  have fin: "\<forall>a vfs eff.
           lp_irl_sample_trajectories backend choice data max_iter pp discount n_basis g
             = Inr ((a, vfs), eff)
           \<longrightarrow> last vfs = V_star \<and> 1 \<le> length vfs \<and> length vfs \<le> nat max_iter + 1"
  proof (rule allI, rule allI, rule allI, rule impI)
    fix a vfs eff
    assume "lp_irl_sample_trajectories backend choice data max_iter pp discount n_basis g
             = Inr ((a, vfs), eff)"
    then have "irl_loop backend discount n_basis pp (nat max_iter) 0 st0 = Inr ((a, vfs), eff)"
      unfolding lp_irl_sample_trajectories_def assms by simp
    from irl_loop_history [OF this] obtain news0 where
      "vfs = news0 @ st_value_functions st0" "length news0 \<le> nat max_iter" by blast
    then have "vfs = news0 @ [V_star]" "length news0 \<le> nat max_iter"
      by (simp_all add: v(2))
    then show "last vfs = V_star \<and> 1 \<le> length vfs \<and> length vfs \<le> nat max_iter + 1"
      by simp
  qed
  from v(1) v(2) run fin show ?thesis
    by (intro exI [of _ V_star] conjI)
qed

theorem value_history_invariant_witness:
  "\<exists>st0 st4 a vfs eff trajs g' V.
       irl_init unit_choice [] (9 / 10) 1 (const_rng (1 / 2)) = Inr st0
     \<and> st_value_functions st0 = [[0]]
     \<and> irl_run box_vertex_linprog (9 / 10) 1 False 4 st0 = Some st4
     \<and> length (st_value_functions st4) = 4 + 1 \<and> last (st_value_functions st4) = [0]
     \<and> irl_iter box_vertex_linprog (9 / 10) 1 False 4 st4 = Return ((a, vfs), eff)
     \<and> monte_carlo_sim (st_pi_current st4) 20 20 (st_rng st4) = Inr (trajs, g')
     \<and> calc_value_function_estimate trajs (9 / 10) 1 = Inr V
     \<and> vfs = V # st_value_functions st4
     \<and> length vfs = 4 + 2 \<and> last vfs = [0]
     \<and> lp_irl_sample_trajectories box_vertex_linprog unit_choice [] 20 False (9 / 10) 1 (const_rng (1 / 2))
         = Inr ((a, vfs), eff)"
proof -
  have d: "(0::real) \<le> 9 / 10" and m: "(5::int) \<le> 20" by simp_all
  from zero_expert_converges [OF d m, where choice = unit_choice and g = "const_rng (1 / 2)"
      and pp = False]
  obtain st0 st4 vfs g0 where z:
    "irl_init unit_choice [] (9 / 10) 1 (const_rng (1 / 2)) = Inr st0"
    "irl_run box_vertex_linprog (9 / 10) 1 False 4 st0 = Some st4"
    "irl_iter box_vertex_linprog (9 / 10) 1 False 4 st4 = Return (([0], vfs), g0, [])"
    "lp_irl_sample_trajectories box_vertex_linprog unit_choice [] 20 False (9 / 10) 1 (const_rng (1 / 2))
         = Inr (([0], vfs), g0, [])"
    by auto
  from value_history_invariant [OF z(1), of box_vertex_linprog False 20]
  obtain V_star where v:
    "calc_value_function_estimate [] (9 / 10) 1 = Inr V_star"
    "st_value_functions st0 = [V_star]"
    and run: "\<forall>k st. irl_run box_vertex_linprog (9 / 10) 1 False k st0 = Some st \<longrightarrow>
            length (st_value_functions st) = k + 1
          \<and> last (st_value_functions st) = V_star
          \<and> (\<forall>st'. irl_iter box_vertex_linprog (9 / 10) 1 False k st = Continue st' \<longrightarrow>
                 (\<exists>trajs g' V.
                     monte_carlo_sim (st_pi_current st) 20 20 (st_rng st) = Inr (trajs, g')
                   \<and> calc_value_function_estimate trajs (9 / 10) 1 = Inr V
                   \<and> st_value_functions st' = V # st_value_functions st))
          \<and> (\<forall>a vfs eff. irl_iter box_vertex_linprog (9 / 10) 1 False k st = Return ((a, vfs), eff) \<longrightarrow>
                 (\<exists>trajs g' V.
                     monte_carlo_sim (st_pi_current st) 20 20 (st_rng st) = Inr (trajs, g')
                   \<and> calc_value_function_estimate trajs (9 / 10) 1 = Inr V
                   \<and> vfs = V # st_value_functions st)
               \<and> length vfs = k + 2 \<and> last vfs = V_star)"
    by (elim exE conjE) (rule that)
  have "\<forall>traj\<in>set ([] :: real list list). length traj = 0" by simp
  from calc_rect [OF this, of 1 "9 / 10"] v(1) have vs: "V_star = [0]" by simp
  note at = run [rule_format, OF z(2)]
  have at4: "length (st_value_functions st4) = 4 + 1" "last (st_value_functions st4) = V_star"
    using at by (rule conjunct1, rule conjunct2 [THEN conjunct1])
  note ret = at [THEN conjunct2, THEN conjunct2, THEN conjunct2, rule_format, OF z(3)]
  from ret obtain trajs g' V where e:
    "monte_carlo_sim (st_pi_current st4) 20 20 (st_rng st4) = Inr (trajs, g')"
    "calc_value_function_estimate trajs (9 / 10) 1 = Inr V"
    "vfs = V # st_value_functions st4"
    "length vfs = 4 + 2" "last vfs = V_star"
    by (elim exE conjE) (rule that)
  have f2: "st_value_functions st0 = [[0]]" using v(2) vs by simp
  have f5: "last (st_value_functions st4) = [0]" using at4(2) vs by simp
  have f11: "last vfs = [0]" using e(5) vs by simp
  show ?thesis
    by (intro exI conjI)
       (rule z(1) f2 z(2) at4(1) f5 z(3) e(1) e(2) e(3) e(4) f11 z(4))+
qed

text \<open>
  Claim C8. The solver returns a vector only when the backend reports success, and the
  vector is the backend's; when the backend reports failure the solver raises the
  infeasible-LP error, whatever vector the result carries. The driver has no handler: an
  error raised in a pass is the result of the loop and of the driver.
\<close>

theorem lp_failure_is_raised:
  "(\<forall>alpha. solve_lp_for_alphas backend vp hist = Inr alpha \<longrightarrow>
        (\<exists>td res. diff_loop (last hist) hist [0..<length hist - 1] (np_zeros (length (last hist)))
                     = Inr td
            \<and> backend (map uminus td) (np_eye (length td)) (np_ones (length td)) (0, 1) = Inr res
            \<and> lp_success res \<and> alpha = lp_x res))
   \<and> (\<forall>td res.
         hist \<noteq> []
       \<and> diff_loop (last hist) hist [0..<length hist - 1] (np_zeros (length (last hist))) = Inr td
       \<and> backend (map uminus td) (np_eye (length td)) (np_ones (length td)) (0, 1) = Inr res
       \<longrightarrow> solve_lp_for_alphas backend vp hist =
             (if lp_success res then Inr (lp_x res)
              else Inl (ValueError ''LP did not find a feasible solution.'')))
   \<and> (\<forall>trajs g' V e.
         monte_carlo_sim (st_pi_current st) 20 20 (st_rng st) = Inr (trajs, g')
       \<and> calc_value_function_estimate trajs discount n_basis = Inr V
       \<and> solve_lp_for_alphas backend (last (V # st_value_functions st)) (V # st_value_functions st)
           = Inl e
       \<longrightarrow> irl_iter backend discount n_basis pp i st = Raise e)
   \<and> (\<forall>e left. irl_iter backend discount n_basis pp i st = Raise e
       \<longrightarrow> irl_loop backend discount n_basis pp (Suc left) i st = Inl e)
   \<and> (\<forall>st0 k st' e.
         irl_init choice data discount n_basis g = Inr st0
       \<and> irl_run backend discount n_basis pp k st0 = Some st'
       \<and> int k < max_iter
       \<and> irl_iter backend discount n_basis pp k st' = Raise e
       \<longrightarrow> lp_irl_sample_trajectories backend choice data max_iter pp discount n_basis g = Inl e)"
proof (intro conjI allI impI)
  fix alpha assume "solve_lp_for_alphas backend vp hist = Inr alpha"
  then show "\<exists>td res. diff_loop (last hist) hist [0..<length hist - 1] (np_zeros (length (last hist)))
                     = Inr td
            \<and> backend (map uminus td) (np_eye (length td)) (np_ones (length td)) (0, 1) = Inr res
            \<and> lp_success res \<and> alpha = lp_x res"
    unfolding solve_lp_for_alphas_def Let_def
    by (auto split: if_splits sum.splits)
next
  fix td res
  assume "hist \<noteq> []
       \<and> diff_loop (last hist) hist [0..<length hist - 1] (np_zeros (length (last hist))) = Inr td
       \<and> backend (map uminus td) (np_eye (length td)) (np_ones (length td)) (0, 1) = Inr res"
  then show "solve_lp_for_alphas backend vp hist =
             (if lp_success res then Inr (lp_x res)
              else Inl (ValueError ''LP did not find a feasible solution.''))"
    by (simp add: solve_lp_for_alphas_def Let_def)
next
  fix trajs g' V e
  assume "monte_carlo_sim (st_pi_current st) 20 20 (st_rng st) = Inr (trajs, g')
       \<and> calc_value_function_estimate trajs discount n_basis = Inr V
       \<and> solve_lp_for_alphas backend (last (V # st_value_functions st)) (V # st_value_functions st)
           = Inl e"
  then show "irl_iter backend discount n_basis pp i st = Raise e"
    by (simp add: irl_iter_unfold [of st trajs g' discount n_basis V])
next
  fix e left assume "irl_iter backend discount n_basis pp i st = Raise e"
  then show "irl_loop backend discount n_basis pp (Suc left) i st = Inl e" by simp
next
  fix st0 k st' e
  assume h: "irl_init choice data discount n_basis g = Inr st0
       \<and> irl_run backend discount n_basis pp k st0 = Some st'
       \<and> int k < max_iter
       \<and> irl_iter backend discount n_basis pp k st' = Raise e"
  then have a: "irl_init choice data discount n_basis g = Inr st0"
    and b: "irl_run backend discount n_basis pp k st0 = Some st'"
    and c: "int k < max_iter" by simp_all
  from h show "lp_irl_sample_trajectories backend choice data max_iter pp discount n_basis g = Inl e"
    unfolding driver_is_loop_after_run [OF a b c] by simp
qed

theorem lp_failure_is_raised_witness:
  "lp_irl_sample_trajectories failing_linprog unit_choice [[0]] 20 False (9 / 10) 1 (const_rng (1 / 2))
     = Inl (ValueError ''LP did not find a feasible solution.'')
   \<and> solve_lp_for_alphas failing_linprog [] [[1, 1, 1], [3, 2, 1]]
     = Inl (ValueError ''LP did not find a feasible solution.'')
   \<and> solve_lp_for_alphas box_vertex_linprog [] [[1, 1, 1], [3, 2, 1]] = Inr [1, 1, 0]"
proof -
  have r: "\<forall>traj\<in>set [[0 :: real]]. length traj = 1" by simp
  have e: "[[0 :: real]] = [] \<longrightarrow> (1::nat) = 0" by simp
  have n: "(0::int) \<le> 1" by simp
  from irl_init_shaped [OF r e n, where choice = unit_choice and discount = "9 / 10"
      and g = "const_rng (1 / 2)"]
  obtain p V g1 where i:
    "irl_init unit_choice [[0]] (9 / 10) 1 (const_rng (1 / 2)) =
       Inr \<lparr> st_alpha = np_zeros (nat 1), st_value_functions = [V],
             st_pi_current = pure_policy p, st_rng = g1, st_out = [] \<rparr>"
    "length V = nat 1" by blast
  let ?st0 = "\<lparr> st_alpha = np_zeros (nat 1), st_value_functions = [V],
             st_pi_current = pure_policy p, st_rng = g1, st_out = [] \<rparr>"
  have "irl_iter failing_linprog (9 / 10) 1 False 0 ?st0
         = Raise (ValueError ''LP did not find a feasible solution.'')"
    by (rule failing_backend_raises [where p = p]) (simp_all add: i(2))
  moreover have "irl_run failing_linprog (9 / 10) 1 False 0 ?st0 = Some ?st0" by simp
  moreover have "int 0 < 20" by simp
  moreover note i(1)
  ultimately have drv:
    "lp_irl_sample_trajectories failing_linprog unit_choice [[0]] 20 False (9 / 10) 1 (const_rng (1 / 2))
     = Inl (ValueError ''LP did not find a feasible solution.'')"
    using lp_failure_is_raised [where backend = failing_linprog and choice = unit_choice and data = "[[0]]"
      and max_iter = 20 and pp = False and discount = "9 / 10" and n_basis = 1
      and g = "const_rng (1 / 2)"]
    by blast
  have s1: "solve_lp_for_alphas failing_linprog [] [[1, 1, 1], [3, 2, 1]]
     = Inl (ValueError ''LP did not find a feasible solution.'')"
    by (simp add: solve_lp_for_alphas_def upt_rec np_sub_def np_broadcast2_def np_iadd_def
        np_zeros_def failing_linprog_def numeral_3_eq_3)
  have s2: "solve_lp_for_alphas box_vertex_linprog [] [[1, 1, 1], [3, 2, 1]] = Inr [1, 1, 0]"
    by (simp add: solve_lp_for_alphas_def upt_rec np_sub_def np_broadcast2_def np_iadd_def
        np_zeros_def box_vertex_linprog_def numeral_3_eq_3)
  from drv s1 s2 show ?thesis by blast
qed

end
